theory Spec2Isabelle
  imports Main
begin

section \<open>Common modelling devices\<close>

text \<open>
  A value thrown by JavaScript code. The catch blocks of the repository render it with
  \<^verbatim>\<open>error instanceof Error ? error.message : String(error)\<close>, so the model keeps three
  cases apart: an \<open>Error\<close> object with its message; any other value that \<^verbatim>\<open>String(...)\<close>
  converts, with its rendering; and a value that is not an \<open>Error\<close> and on which
  \<^verbatim>\<open>String(...)\<close> itself throws, with what it throws. An object without \<^verbatim>\<open>toString\<close> and
  \<^verbatim>\<open>valueOf\<close>, such as \<^verbatim>\<open>Object.create(null)\<close>, is of the third kind: converting it throws a
  \<^verbatim>\<open>TypeError\<close>.
\<close>

datatype thrown = Error string | Other string | Unprintable thrown

definition null_prototype_object :: thrown where
  "null_prototype_object = Unprintable (Error ''Cannot convert object to primitive value'')"

text \<open>
  The rendering expression of the catch blocks: it yields the text, or throws (\<open>Inl\<close>) what
  the conversion threw.
\<close>

fun error_text :: "thrown \<Rightarrow> thrown + string" where
  "error_text (Error m) = Inr m"
| "error_text (Other s) = Inr s"
| "error_text (Unprintable e) = Inl e"

text \<open>
  Template literals print numbers in decimal. \<open>string_of_nat\<close> and \<open>string_of_int\<close> are the
  decimal renderings of the integers the code interpolates (clock readings in
  milliseconds, list lengths, counters).
\<close>

definition digit_char :: "nat \<Rightarrow> char" where
  "digit_char d = ''0123456789'' ! (d mod 10)"

fun string_of_nat :: "nat \<Rightarrow> string" where
  "string_of_nat n =
     (if n < 10 then [digit_char n] else string_of_nat (n div 10) @ [digit_char (n mod 10)])"

declare string_of_nat.simps [simp del]

definition string_of_int :: "int \<Rightarrow> string" where
  "string_of_int i = (if i < 0 then CHR ''-'' # string_of_nat (nat (- i)) else string_of_nat (nat i))"

text \<open>\<^verbatim>\<open>String.prototype.startsWith\<close>.\<close>

definition startsWith :: "string \<Rightarrow> string \<Rightarrow> bool" where
  "startsWith s p = (take (length p) s = p)"

text \<open>
  A structured record handed to \<^verbatim>\<open>elizaLogger\<close>: level, the \<open>agentId\<close> and \<open>action\<close> fields
  every call passes, the remaining fields, and the message. The logger is a sink: the
  model appends to a list.
\<close>

datatype log_level = LInfo | LWarn | LError

record log_entry =
  level :: log_level
  agent :: string
  action :: string
  detail :: "(string \<times> string) list"
  message :: string

text \<open>Lines written to the console by the \<^verbatim>\<open>services/\<close> variants.\<close>

datatype console_entry = ConsoleLog string | ConsoleError string thrown

text \<open>
  A trigger callback \<^verbatim>\<open>() => Promise<void>\<close> acts on the world outside the loop (type
  \<open>'w\<close>): it leaves a new world and either resolves (\<open>None\<close>) or rejects with a thrown
  value. The effects it had before throwing stay in the world. The units are opaque to
  the loop; a unit that would register further units, or stop the loop, while the loop
  iterates is not covered.
\<close>

type_synonym 'w trigger = "'w \<Rightarrow> thrown option \<times> 'w"

text \<open>
  The loop shared by every \<^verbatim>\<open>executeTriggers\<close>:
  \<^verbatim>\<open>for (const trigger of this.triggers) { try { await trigger(); } catch (error) { report } }\<close>.
  \<open>report\<close> is the catch block: it builds the record that is written to the sink \<open>out\<close>, or
  throws while building it. A throw inside the catch block is caught by nothing: it ends
  the loop, the units that have not run yet are skipped, and \<^verbatim>\<open>executeTriggers\<close> rejects with
  it. The result is the outcome (\<open>None\<close>: resolved), the world and the sink.
\<close>

fun for_each_trigger ::
  "(thrown \<Rightarrow> thrown + 'l) \<Rightarrow> 'w trigger list \<Rightarrow> 'w \<Rightarrow> 'l list \<Rightarrow> thrown option \<times> 'w \<times> 'l list" where
  "for_each_trigger report [] w out = (None, w, out)"
| "for_each_trigger report (t # ts) w out =
     (case t w of
        (None, w') \<Rightarrow> for_each_trigger report ts w' out
      | (Some e, w') \<Rightarrow>
          (case report e of
             Inr entry \<Rightarrow> for_each_trigger report ts w' (out @ [entry])
           | Inl e' \<Rightarrow> (Some e', w', out)))"

section \<open>AutonomousLoop, single-timer variant (plugin-autonomous/src/AutonomousLoop.ts)\<close>

record 'w autonomous_loop =
  triggers :: "'w trigger list"
  loopTimer :: "int option"
  isRunning :: bool
  runtime_agentId :: string
  planningFunction :: "'w trigger option"
  lastPlanTime :: int
  planIntervalMs :: int

text \<open>The constructor: field initialisers, then \<^verbatim>\<open>this.runtime = runtime\<close>.\<close>

definition new_loop :: "string \<Rightarrow> 'w autonomous_loop" where
  "new_loop aid =
     \<lparr>triggers = [], loopTimer = None, isRunning = False, runtime_agentId = aid,
      planningFunction = None, lastPlanTime = 0, planIntervalMs = 60000\<rparr>"

definition registerTrigger :: "'w trigger \<Rightarrow> 'w autonomous_loop \<Rightarrow> 'w autonomous_loop" where
  "registerTrigger t l = l\<lparr>triggers := triggers l @ [t]\<rparr>"

definition setPlanningFunction ::
  "'w trigger \<Rightarrow> 'w autonomous_loop \<Rightarrow> log_entry list \<Rightarrow> 'w autonomous_loop \<times> log_entry list" where
  "setPlanningFunction pf l lg =
     (l\<lparr>planningFunction := Some pf\<rparr>,
      lg @ [\<lparr>level = LInfo, agent = runtime_agentId l, action = ''set_planning_function'',
             detail = [], message = ''Planning function registered''\<rparr>])"

text \<open>
  \<^verbatim>\<open>executeTriggers\<close>. Its catch block evaluates the rendering expression inside the argument
  of \<^verbatim>\<open>elizaLogger.error\<close>, so when the rendering throws nothing has been logged yet.
\<close>

definition trigger_error :: "string \<Rightarrow> string \<Rightarrow> log_entry" where
  "trigger_error aid txt =
     \<lparr>level = LError, agent = aid, action = ''trigger_error'',
      detail = [(''error'', txt)], message = ''Error executing trigger''\<rparr>"

definition executeTriggers ::
  "'w autonomous_loop \<Rightarrow> 'w \<Rightarrow> log_entry list \<Rightarrow> thrown option \<times> 'w \<times> log_entry list" where
  "executeTriggers l w lg =
     for_each_trigger
       (\<lambda>error. case error_text error of
                  Inl e' \<Rightarrow> Inl e'
                | Inr txt \<Rightarrow> Inr (trigger_error (runtime_agentId l) txt))
       (triggers l) w lg"

text \<open>
  \<^verbatim>\<open>start(options?)\<close>. \<open>now\<close> is the reading of \<^verbatim>\<open>Date.now()\<close> taken when the loop really
  starts. \<^verbatim>\<open>options?.loopIntervalMs ?? 5000\<close> defaults an absent value only, while
  \<^verbatim>\<open>if (options?.planIntervalMs)\<close> also skips \<open>0\<close>; the plan interval is stored before the
  running check. The timer handle is modelled by the period the interval was armed with.
\<close>

record loop_options =
  opt_loopIntervalMs :: "int option"
  opt_planIntervalMs :: "int option"

definition start ::
  "loop_options option \<Rightarrow> int \<Rightarrow> 'w autonomous_loop \<Rightarrow> log_entry list
     \<Rightarrow> 'w autonomous_loop \<times> log_entry list" where
  "start options now l lg =
     (let loopIntervalMs =
            (case options of None \<Rightarrow> 5000
             | Some opt \<Rightarrow> (case opt_loopIntervalMs opt of None \<Rightarrow> 5000 | Some n \<Rightarrow> n));
          l1 = (case options of None \<Rightarrow> l
                | Some opt \<Rightarrow>
                    (case opt_planIntervalMs opt of None \<Rightarrow> l
                     | Some n \<Rightarrow> if n \<noteq> 0 then l\<lparr>planIntervalMs := n\<rparr> else l))
      in if isRunning l1
         then (l1, lg @ [\<lparr>level = LWarn, agent = runtime_agentId l1, action = ''start_ignored'',
                          detail = [], message = ''Autonomous loop already running''\<rparr>])
         else (l1\<lparr>isRunning := True, lastPlanTime := now, loopTimer := Some loopIntervalMs\<rparr>,
               lg @ [\<lparr>level = LInfo, agent = runtime_agentId l1, action = ''start'',
                      detail = [(''loopIntervalMs'', string_of_int loopIntervalMs),
                                (''planIntervalMs'', string_of_int (planIntervalMs l1))],
                      message = ''Autonomous loop started''\<rparr>]))"

definition stop ::
  "'w autonomous_loop \<Rightarrow> log_entry list \<Rightarrow> 'w autonomous_loop \<times> log_entry list" where
  "stop l lg =
     (if \<not> isRunning l
      then (l, lg @ [\<lparr>level = LWarn, agent = runtime_agentId l, action = ''stop_ignored'',
                      detail = [], message = ''Autonomous loop not running''\<rparr>])
      else (l\<lparr>loopTimer := None, isRunning := False, lastPlanTime := 0\<rparr>,
            lg @ [\<lparr>level = LInfo, agent = runtime_agentId l, action = ''stop'',
                   detail = [], message = ''Autonomous loop stopped''\<rparr>]))"










section \<open>AutonomousLoop, two-timer variant (plugin-autonomous/src/services/AutonomousLoop.ts)\<close>

record 'w svc_loop =
  svc_triggers :: "'w trigger list"
  planningCallback :: "'w trigger option"
  svc_loopTimer :: "int option"
  planningTimer :: "int option"
  triggerInterval :: int
  planningInterval :: int
  svc_isRunning :: bool

text \<open>
  This variant's catch block passes the thrown value to \<^verbatim>\<open>console.error\<close> as it is and
  renders nothing itself.
\<close>

definition svc_executeTriggers ::
  "'w svc_loop \<Rightarrow> 'w \<Rightarrow> console_entry list \<Rightarrow> thrown option \<times> 'w \<times> console_entry list" where
  "svc_executeTriggers l w out =
     for_each_trigger (\<lambda>error. Inr (ConsoleError ''Error executing trigger:'' error))
       (svc_triggers l) w out"

section \<open>PlanningModule, stateful variant (the class holding \<^verbatim>\<open>currentPlan\<close>)\<close>

datatype subtask_status = Pending | InProgress | Completed | Failed

fun status_text :: "subtask_status \<Rightarrow> string" where
  "status_text Pending = ''pending''"
| "status_text InProgress = ''in_progress''"
| "status_text Completed = ''completed''"
| "status_text Failed = ''failed''"

record subtask =
  st_id :: string
  st_description :: string
  st_status :: subtask_status
  st_dependencies :: "string list option"

datatype plan_status = Active | PlanCompleted | Abandoned

record plan =
  p_id :: string
  p_goal :: string
  p_subtasks :: "subtask list"
  p_createdAt :: int
  p_updatedAt :: int
  p_status :: plan_status

text \<open>
  Plans are mutable objects that callers keep references to (\<^verbatim>\<open>getCurrentPlan\<close> hands the
  object out), so the model has a store: a reference is an index into \<open>store\<close>, a new
  object is appended and nothing is ever freed. Every reference the program holds is
  therefore in range; \<open>store s ! r\<close> means something only there, and the theorems that
  depend on it assume \<open>r < length (store s)\<close>.

  \<^verbatim>\<open>Date.now()\<close> is an oracle: \<open>clock s k\<close> is what the \<open>k\<close>-th call returns and \<open>reads s\<close>
  counts the calls made so far. \<open>logger\<close> collects what \<^verbatim>\<open>elizaLogger\<close> was given.
\<close>

record planner =
  agentId :: string
  store :: "plan list"
  currentPlan :: "nat option"
  isPlanningInProgress :: bool
  logger :: "log_entry list"
  clock :: "nat \<Rightarrow> int"
  reads :: nat

definition new_planner :: "string \<Rightarrow> (nat \<Rightarrow> int) \<Rightarrow> planner" where
  "new_planner aid clk =
     \<lparr>agentId = aid, store = [], currentPlan = None, isPlanningInProgress = False,
      logger = [], clock = clk, reads = 0\<rparr>"

definition Date_now :: "planner \<Rightarrow> int \<times> planner" where
  "Date_now s = (clock s (reads s), s\<lparr>reads := Suc (reads s)\<rparr>)"

definition log_to ::
  "log_level \<Rightarrow> string \<Rightarrow> (string \<times> string) list \<Rightarrow> string \<Rightarrow> planner \<Rightarrow> planner" where
  "log_to lv a d m s =
     s\<lparr>logger := logger s @ [\<lparr>level = lv, agent = agentId s, action = a, detail = d, message = m\<rparr>]\<rparr>"

text \<open>A write to a field of the plan object behind reference \<open>r\<close>.\<close>

definition update_plan :: "nat \<Rightarrow> (plan \<Rightarrow> plan) \<Rightarrow> planner \<Rightarrow> planner" where
  "update_plan r f s = s\<lparr>store := (store s)[r := f (store s ! r)]\<rparr>"

text \<open>
  An asynchronous member function of the class: it leaves a new state and either resolves with a
  value or rejects with what was thrown.
\<close>

type_synonym 'a async_op = "planner \<Rightarrow> (thrown + 'a) \<times> planner"

text \<open>
  \<^verbatim>\<open>generatePlan\<close>. The object literal reads the clock six times, in source order: the plan
  id, the ids of the two subtasks, the dependency of the second one, \<^verbatim>\<open>createdAt\<close> and
  \<^verbatim>\<open>updatedAt\<close>. Nothing inside its \<^verbatim>\<open>try\<close> block can throw, so the method always resolves.
\<close>

definition generatePlan :: "unit async_op" where
  "generatePlan s =
     (let s0 = log_to LInfo ''generate_plan'' [] ''Generating new plan'' s;
          (t0, s1) = Date_now s0;
          (t1, s2) = Date_now s1;
          (t2, s3) = Date_now s2;
          (t3, s4) = Date_now s3;
          (t4, s5) = Date_now s4;
          (t5, s6) = Date_now s5;
          newPlan =
            \<lparr>p_id = ''plan-'' @ string_of_int t0,
             p_goal = ''Default goal'',
             p_subtasks =
               [\<lparr>st_id = ''task-'' @ string_of_int t1 @ ''-1'',
                 st_description = ''Example subtask 1'',
                 st_status = Pending,
                 st_dependencies = None\<rparr>,
                \<lparr>st_id = ''task-'' @ string_of_int t2 @ ''-2'',
                 st_description = ''Example subtask 2'',
                 st_status = Pending,
                 st_dependencies = Some [''task-'' @ string_of_int t3 @ ''-1'']\<rparr>],
             p_createdAt = t4,
             p_updatedAt = t5,
             p_status = Active\<rparr>;
          s7 = s6\<lparr>store := store s6 @ [newPlan], currentPlan := Some (length (store s6))\<rparr>
      in (Inr (), log_to LInfo ''plan_generated'' [(''planId'', p_id newPlan)] ''New plan generated'' s7))"

definition checkPlanProgress :: "string list async_op" where
  "checkPlanProgress s =
     (case currentPlan s of
        None \<Rightarrow> (Inr [], s)
      | Some r \<Rightarrow>
          (Inr [], log_to LInfo ''check_plan_progress'' [(''planId'', p_id (store s ! r))]
                     ''Checking plan progress'' s))"

definition shouldReplan :: "string list \<Rightarrow> bool" where
  "shouldReplan discrepancies = list_ex (\<lambda>d. startsWith d ''CRITICAL:'') discrepancies"

text \<open>
  \<^verbatim>\<open>handleDiscrepancies\<close>, with the \<^verbatim>\<open>this.generatePlan()\<close> it calls as a parameter (the
  repository's tests replace that method by a mock). A \<^verbatim>\<open>planId\<close> that is \<^verbatim>\<open>undefined\<close> is
  left out of the logged record.
\<close>

definition handleDiscrepancies_with :: "unit async_op \<Rightarrow> string list \<Rightarrow> unit async_op" where
  "handleDiscrepancies_with gen discrepancies s =
     (let s1 = log_to LInfo ''handle_discrepancies''
                 ((case currentPlan s of None \<Rightarrow> [] | Some r \<Rightarrow> [(''planId'', p_id (store s ! r))])
                  @ [(''discrepancyCount'', string_of_nat (length discrepancies))])
                 ''Handling plan discrepancies'' s
      in if shouldReplan discrepancies
         then gen (case currentPlan s1 of
                     None \<Rightarrow> s1
                   | Some r \<Rightarrow>
                       (let s2 = update_plan r (\<lambda>p. p\<lparr>p_status := Abandoned\<rparr>) s1;
                            (now, s3) = Date_now s2
                        in update_plan r (\<lambda>p. p\<lparr>p_updatedAt := now\<rparr>) s3))
         else (Inr (), s1))"

definition handleDiscrepancies :: "string list \<Rightarrow> unit async_op" where
  "handleDiscrepancies = handleDiscrepancies_with generatePlan"

definition isAllSubtasksCompleted :: "planner \<Rightarrow> bool" where
  "isAllSubtasksCompleted s =
     (case currentPlan s of
        None \<Rightarrow> False
      | Some r \<Rightarrow> list_all (\<lambda>task. st_status task = Completed) (p_subtasks (store s ! r)))"

definition completePlan :: "planner \<Rightarrow> planner" where
  "completePlan s =
     (case currentPlan s of
        None \<Rightarrow> s
      | Some r \<Rightarrow>
          (let s1 = update_plan r (\<lambda>p. p\<lparr>p_status := PlanCompleted\<rparr>) s;
               (now, s2) = Date_now s1;
               s3 = update_plan r (\<lambda>p. p\<lparr>p_updatedAt := now\<rparr>) s2;
               s4 = log_to LInfo ''plan_completed'' [(''planId'', p_id (store s3 ! r))]
                      ''Plan completed successfully'' s3
           in s4\<lparr>currentPlan := None\<rparr>))"

text \<open>
  The \<^verbatim>\<open>try\<close> block of \<^verbatim>\<open>plan\<close>. \<open>gen\<close> and \<open>chk\<close> stand for \<^verbatim>\<open>this.generatePlan()\<close> and
  \<^verbatim>\<open>this.checkPlanProgress()\<close>; a rejection of either, or of \<^verbatim>\<open>handleDiscrepancies\<close>, leaves
  the block at once with the state reached so far.
\<close>

definition plan_body :: "unit async_op \<Rightarrow> string list async_op \<Rightarrow> unit async_op" where
  "plan_body gen chk s =
     (case currentPlan s of
        None \<Rightarrow> gen s
      | Some _ \<Rightarrow>
          (case chk s of
             (Inl e, s1) \<Rightarrow> (Inl e, s1)
           | (Inr discrepancies, s1) \<Rightarrow>
               (case (if discrepancies \<noteq> [] then handleDiscrepancies_with gen discrepancies s1
                      else (Inr (), s1)) of
                  (Inl e, s2) \<Rightarrow> (Inl e, s2)
                | (Inr _, s2) \<Rightarrow>
                    (Inr (), if currentPlan s2 \<noteq> None \<and> isAllSubtasksCompleted s2
                             then completePlan s2 else s2))))"

text \<open>
  \<^verbatim>\<open>plan\<close>: the re-entrancy check, the flag, then \<^verbatim>\<open>try\<close>/\<^verbatim>\<open>catch\<close>/\<^verbatim>\<open>finally\<close>. The skip returns
  before the \<^verbatim>\<open>try\<close>, so it does not touch the flag. The catch block evaluates the
  rendering expression inside the argument of \<^verbatim>\<open>elizaLogger.error\<close>: when the rendering
  throws, nothing is logged, the \<^verbatim>\<open>finally\<close> step still runs and \<^verbatim>\<open>plan\<close> rejects with what the
  rendering threw.
\<close>

definition planning_skipped :: "string \<Rightarrow> log_entry" where
  "planning_skipped aid =
     \<lparr>level = LWarn, agent = aid, action = ''planning_skipped'', detail = [],
      message = ''Planning cycle already in progress, skipping''\<rparr>"

definition plan_with :: "unit async_op \<Rightarrow> string list async_op \<Rightarrow> unit async_op" where
  "plan_with gen chk s =
     (if isPlanningInProgress s
      then (Inr (), s\<lparr>logger := logger s @ [planning_skipped (agentId s)]\<rparr>)
      else (case plan_body gen chk (s\<lparr>isPlanningInProgress := True\<rparr>) of
              (Inr _, s1) \<Rightarrow> (Inr (), s1\<lparr>isPlanningInProgress := False\<rparr>)
            | (Inl error, s1) \<Rightarrow>
                (case error_text error of
                   Inr txt \<Rightarrow>
                     (Inr (),
                      (log_to LError ''planning_error'' [(''error'', txt)]
                         ''Error during planning cycle'' s1)\<lparr>isPlanningInProgress := False\<rparr>)
                 | Inl e' \<Rightarrow> (Inl e', s1\<lparr>isPlanningInProgress := False\<rparr>))))"

definition plan :: "unit async_op" where
  "plan = plan_with generatePlan checkPlanProgress"

definition getCurrentPlan :: "planner \<Rightarrow> nat option" where
  "getCurrentPlan s = currentPlan s"

text \<open>
  \<^verbatim>\<open>updateSubtaskStatus\<close>. \<^verbatim>\<open>find\<close> yields the first subtask with the id, and the assignment
  writes that object; \<open>assign_status\<close> is that write on the list.
\<close>

fun assign_status :: "string \<Rightarrow> subtask_status \<Rightarrow> subtask list \<Rightarrow> subtask list" where
  "assign_status subtaskId status [] = []"
| "assign_status subtaskId status (task # tasks) =
     (if st_id task = subtaskId then task\<lparr>st_status := status\<rparr> # tasks
      else task # assign_status subtaskId status tasks)"

definition updateSubtaskStatus :: "string \<Rightarrow> subtask_status \<Rightarrow> planner \<Rightarrow> bool \<times> planner" where
  "updateSubtaskStatus subtaskId status s =
     (case currentPlan s of
        None \<Rightarrow> (False, s)
      | Some r \<Rightarrow>
          (case find (\<lambda>task. st_id task = subtaskId) (p_subtasks (store s ! r)) of
             None \<Rightarrow> (False, s)
           | Some _ \<Rightarrow>
               (let s1 = update_plan r
                           (\<lambda>p. p\<lparr>p_subtasks := assign_status subtaskId status (p_subtasks p)\<rparr>) s;
                    (now, s2) = Date_now s1;
                    s3 = update_plan r (\<lambda>p. p\<lparr>p_updatedAt := now\<rparr>) s2
                in (True,
                    log_to LInfo ''update_subtask_status''
                      [(''planId'', p_id (store s3 ! r)), (''subtaskId'', subtaskId),
                       (''status'', status_text status)]
                      ''Subtask status updated'' s3))))"

text \<open>
  The current-plan slot is in order when it is empty or refers to a stored plan whose
  status is the only one of this \<^verbatim>\<open>Plan\<close> type that is not terminal, \<^verbatim>\<open>"active"\<close>.
\<close>

definition slot_ok :: "planner \<Rightarrow> bool" where
  "slot_ok s =
     (case currentPlan s of
        None \<Rightarrow> True
      | Some r \<Rightarrow> r < length (store s) \<and> p_status (store s ! r) = Active)"

section \<open>PlanningModule, stateless variant (plugin-autonomous/src/services/PlanningModule.ts)\<close>

record svc_subtask =
  ss_id :: string
  ss_description :: string
  ss_status :: subtask_status
  ss_createdAt :: int
  ss_updatedAt :: int
  ss_data :: "(string \<times> string) list option"

datatype svc_plan_status = SvcCreated | SvcInProgress | SvcCompleted | SvcFailed

record plan_metadata =
  previousPlanId :: "string option"
  replanReason :: "string option"
  originalPlanCreatedAt :: "int option"
  other_keys :: "(string \<times> string) list"

record svc_plan =
  sp_id :: string
  sp_subtasks :: "svc_subtask list"
  sp_status :: svc_plan_status
  sp_createdAt :: int
  sp_updatedAt :: int
  sp_metadata :: "plan_metadata option"

text \<open>
  This class has no fields; its methods take and return plan objects. The world they run
  in: the \<open>heap\<close> of plan objects (references are indices, as above), the \<open>console\<close>, the
  \<^verbatim>\<open>Date.now()\<close> oracle and the oracle for \<^verbatim>\<open>Math.floor(Math.random() * 1000)\<close>.
\<close>

record svc_world =
  heap :: "svc_plan list"
  console :: "console_entry list"
  svc_clock :: "nat \<Rightarrow> int"
  svc_reads :: nat
  random :: "nat \<Rightarrow> nat"
  random_reads :: nat

text \<open>The part of \<^verbatim>\<open>State\<close> the module reads.\<close>

record agent_state =
  agentName :: "string option"

definition svc_Date_now :: "svc_world \<Rightarrow> int \<times> svc_world" where
  "svc_Date_now w = (svc_clock w (svc_reads w), w\<lparr>svc_reads := Suc (svc_reads w)\<rparr>)"

definition random_1000 :: "svc_world \<Rightarrow> nat \<times> svc_world" where
  "random_1000 w = (random w (random_reads w) mod 1000, w\<lparr>random_reads := Suc (random_reads w)\<rparr>)"

definition console_log :: "string \<Rightarrow> svc_world \<Rightarrow> svc_world" where
  "console_log line w = w\<lparr>console := console w @ [ConsoleLog line]\<rparr>"

text \<open>
  The JavaScript operator \<^verbatim>\<open>||\<close> on an optional number and on an optional string: the
  right operand is taken when the left one is \<^verbatim>\<open>undefined\<close>, and also when it is \<open>0\<close> or
  the empty string.
\<close>

definition or_number :: "int option \<Rightarrow> int \<Rightarrow> int" where
  "or_number a b = (case a of None \<Rightarrow> b | Some n \<Rightarrow> if n = 0 then b else n)"

definition or_string :: "string option \<Rightarrow> string \<Rightarrow> string" where
  "or_string a b = (case a of None \<Rightarrow> b | Some x \<Rightarrow> if x = [] then b else x)"

text \<open>
  \<^verbatim>\<open>generatePlan(state)\<close>: the clock is read for the plan id (followed by the random
  number), three times for each of the three subtasks (id, \<^verbatim>\<open>createdAt\<close>, \<^verbatim>\<open>updatedAt\<close>) and
  twice for the plan's own timestamps. The new object gets the next free reference.
\<close>

definition new_subtask :: "string \<Rightarrow> string \<Rightarrow> svc_world \<Rightarrow> svc_subtask \<times> svc_world" where
  "new_subtask suffix descr w =
     (let (t0, w1) = svc_Date_now w;
          (t1, w2) = svc_Date_now w1;
          (t2, w3) = svc_Date_now w2
      in (\<lparr>ss_id = ''subtask-'' @ string_of_int t0 @ suffix, ss_description = descr,
           ss_status = Pending, ss_createdAt = t1, ss_updatedAt = t2, ss_data = None\<rparr>, w3))"

definition svc_generatePlan :: "agent_state \<Rightarrow> svc_world \<Rightarrow> nat \<times> svc_world" where
  "svc_generatePlan state w =
     (let (t0, w1) = svc_Date_now w;
          (rnd, w2) = random_1000 w1;
          planId = ''plan-'' @ string_of_int t0 @ ''-'' @ string_of_nat rnd;
          (task1, w3) = new_subtask ''-1''
                          (''Analyze recent messages from '' @ or_string (agentName state) ''user'') w2;
          (task2, w4) = new_subtask ''-2'' ''Check for any required actions'' w3;
          (task3, w5) = new_subtask ''-3'' ''Prepare appropriate response'' w4;
          (t1, w6) = svc_Date_now w5;
          (t2, w7) = svc_Date_now w6
      in (length (heap w7),
          w7\<lparr>heap := heap w7 @
                 [\<lparr>sp_id = planId, sp_subtasks = [task1, task2, task3], sp_status = SvcCreated,
                   sp_createdAt = t1, sp_updatedAt = t2, sp_metadata = None\<rparr>]\<rparr>))"

text \<open>The count \<^verbatim>\<open>plan.subtasks.filter(task => task.status === ...).length\<close>.\<close>

definition count_status :: "subtask_status \<Rightarrow> svc_plan \<Rightarrow> nat" where
  "count_status st p = length (filter (\<lambda>task. ss_status task = st) (sp_subtasks p))"

definition monitorPlan :: "nat option \<Rightarrow> svc_world \<Rightarrow> (thrown + unit) \<times> svc_world" where
  "monitorPlan plan_ref w =
     (case plan_ref of
        None \<Rightarrow> (Inl (Error ''Invalid plan provided''), w)
      | Some r \<Rightarrow>
          (let p = heap w ! r;
               w1 = console_log (''Monitoring plan '' @ sp_id p @ '' with ''
                                 @ string_of_nat (length (sp_subtasks p)) @ '' subtasks'') w;
               pendingTasks = count_status Pending p;
               inProgressTasks = count_status InProgress p;
               completedTasks = count_status Completed p;
               failedTasks = count_status Failed p
           in (Inr (),
               console_log (''Plan status: '' @ string_of_nat pendingTasks @ '' pending, ''
                            @ string_of_nat inProgressTasks @ '' in progress, ''
                            @ string_of_nat completedTasks @ '' completed, ''
                            @ string_of_nat failedTasks @ '' failed'') w1)))"

text \<open>
  The object literal \<^verbatim>\<open>replanIfNeeded\<close> assigns to \<^verbatim>\<open>newPlan.metadata\<close>: the three keys and
  nothing else. \<^verbatim>\<open>currentPlan.metadata?.originalPlanCreatedAt || currentPlan.createdAt\<close> is
  written with \<^verbatim>\<open>||\<close>.
\<close>

definition lineage :: "svc_plan \<Rightarrow> plan_metadata" where
  "lineage current =
     \<lparr>previousPlanId = Some (sp_id current),
      replanReason = Some ''Failed tasks detected'',
      originalPlanCreatedAt =
        Some (or_number
                (case sp_metadata current of None \<Rightarrow> None | Some m \<Rightarrow> originalPlanCreatedAt m)
                (sp_createdAt current)),
      other_keys = []\<rparr>"

definition replanIfNeeded ::
  "agent_state \<Rightarrow> nat option \<Rightarrow> svc_world \<Rightarrow> (thrown + nat) \<times> svc_world" where
  "replanIfNeeded state plan_ref w =
     (case plan_ref of
        None \<Rightarrow> (Inl (Error ''Invalid plan provided''), w)
      | Some r \<Rightarrow>
          (let w1 = console_log (''Checking if plan '' @ sp_id (heap w ! r) @ '' needs updating'') w;
               hasFailedTasks = list_ex (\<lambda>task. ss_status task = Failed) (sp_subtasks (heap w1 ! r))
           in if hasFailedTasks
              then (let w2 = console_log ''Detected failed tasks, generating new plan'' w1;
                        (n, w3) = svc_generatePlan state w2
                    in (Inr n,
                        w3\<lparr>heap := (heap w3)[n := (heap w3 ! n)\<lparr>sp_metadata := Some (lineage (heap w3 ! r))\<rparr>]\<rparr>))
              else (Inr r, console_log ''No replanning needed, continuing with current plan'' w1)))"

section \<open>Test instrumentation\<close>

text \<open>
  A spy around a trigger, as \<^verbatim>\<open>vi.fn()\<close> in the repository's tests: the world is paired
  with a table of call counts and every invocation of unit \<open>k\<close> bumps entry \<open>k\<close>, whether
  the unit then resolves or rejects.
\<close>

definition spy :: "nat \<Rightarrow> 'w trigger \<Rightarrow> ('w \<times> (nat \<Rightarrow> nat)) trigger" where
  "spy k t = (\<lambda>(w, calls). case t w of (r, w') \<Rightarrow> (r, (w', calls(k := calls k + 1))))"

definition spies :: "'w trigger list \<Rightarrow> ('w \<times> (nat \<Rightarrow> nat)) trigger list" where
  "spies ts = map (\<lambda>(k, t). spy k t) (enumerate 0 ts)"

text \<open>What the units of a tick return, in order, each run on the world its predecessor left.\<close>

fun outcomes :: "'w trigger list \<Rightarrow> 'w \<Rightarrow> thrown option list" where
  "outcomes [] w = []"
| "outcomes (t # ts) w = fst (t w) # outcomes ts (snd (t w))"

fun thrown_of :: "thrown option list \<Rightarrow> thrown list" where
  "thrown_of [] = []"
| "thrown_of (None # rs) = thrown_of rs"
| "thrown_of (Some e # rs) = e # thrown_of rs"

section \<open>Concrete scenarios\<close>

text \<open>Two trigger units on a world that is a counter: one resolves, one always rejects.\<close>

definition ok_unit :: "nat trigger" where
  "ok_unit = (\<lambda>w. (None, w + 1))"

definition bad_unit :: "nat trigger" where
  "bad_unit = (\<lambda>w. (Some (Error ''Trigger failure''), w + 10))"

text \<open>
  A unit that throws \<^verbatim>\<open>Object.create(null)\<close>, and one that does so once the counter has
  reached \<open>100\<close>.
\<close>

definition null_unit :: "nat trigger" where
  "null_unit = (\<lambda>w. (Some null_prototype_object, w + 10))"


text \<open>
  Plans of the stateless variant: \<open>P0\<close> has a completed and a failed subtask, \<open>P5\<close> a
  completed and a pending one (the plans of the repository's re-planning tests).
\<close>

definition P0 :: svc_plan where
  "P0 = \<lparr>sp_id = ''P0id'',
          sp_subtasks =
            [\<lparr>ss_id = ''t1'', ss_description = ''Test task 1'', ss_status = Completed,
              ss_createdAt = 1000, ss_updatedAt = 1000, ss_data = None\<rparr>,
             \<lparr>ss_id = ''t2'', ss_description = ''Test task 2'', ss_status = Failed,
              ss_createdAt = 1000, ss_updatedAt = 1000, ss_data = None\<rparr>],
          sp_status = SvcInProgress, sp_createdAt = 1000, sp_updatedAt = 1000,
          sp_metadata = None\<rparr>"

definition P5 :: svc_plan where
  "P5 = \<lparr>sp_id = ''test-plan-5'',
          sp_subtasks =
            [\<lparr>ss_id = ''task-1'', ss_description = ''Test task 1'', ss_status = Completed,
              ss_createdAt = 1000, ss_updatedAt = 1000, ss_data = None\<rparr>,
             \<lparr>ss_id = ''task-2'', ss_description = ''Test task 2'', ss_status = Pending,
              ss_createdAt = 1000, ss_updatedAt = 1000, ss_data = None\<rparr>],
          sp_status = SvcInProgress, sp_createdAt = 1000, sp_updatedAt = 1000,
          sp_metadata = None\<rparr>"

definition world_of :: "svc_plan list \<Rightarrow> svc_world" where
  "world_of ps = \<lparr>heap = ps, console = [], svc_clock = (\<lambda>k. 2000 + int k), svc_reads = 0,
                  random = (\<lambda>k. 42), random_reads = 0\<rparr>"

definition mock_state :: agent_state where
  "mock_state = \<lparr>agentName = None\<rparr>"


text \<open>
  Clocks: one that stands still (everything happens within one millisecond) and one that
  advances by a millisecond with every reading.
\<close>

definition frozen :: "int \<Rightarrow> nat \<Rightarrow> int" where
  "frozen t k = t"

definition ticking_clock :: "nat \<Rightarrow> int" where
  "ticking_clock k = 1000 + int k"

text \<open>
  A new planner whose clock stands still at \<open>1000\<close>, and the mock of the repository's error
  test for \<^verbatim>\<open>generatePlan\<close>.
\<close>

definition fresh :: planner where
  "fresh = new_planner ''test-agent'' (frozen 1000)"



text \<open>
  A plan that is itself a replacement and records \<open>0\<close>, the epoch, as the creation time of
  its first ancestor.
\<close>

definition Pz :: svc_plan where
  "Pz = \<lparr>sp_id = ''P1id'',
          sp_subtasks =
            [\<lparr>ss_id = ''t1'', ss_description = ''Test task 1'', ss_status = Failed,
              ss_createdAt = 5000, ss_updatedAt = 5000, ss_data = None\<rparr>],
          sp_status = SvcInProgress, sp_createdAt = 5000, sp_updatedAt = 5000,
          sp_metadata = Some \<lparr>previousPlanId = Some ''P0id'',
                                replanReason = Some ''Failed tasks detected'',
                                originalPlanCreatedAt = Some 0, other_keys = []\<rparr>\<rparr>"


text \<open>A planner that holds a plan of two pending subtasks.\<close>

definition two_tasks :: plan where
  "two_tasks =
     \<lparr>p_id = ''plan-1'', p_goal = ''Default goal'',
      p_subtasks =
        [\<lparr>st_id = ''t1'', st_description = ''Example subtask 1'', st_status = Pending,
          st_dependencies = None\<rparr>,
         \<lparr>st_id = ''t2'', st_description = ''Example subtask 2'', st_status = Pending,
          st_dependencies = Some [''t1'']\<rparr>],
      p_createdAt = 1000, p_updatedAt = 1000, p_status = Active\<rparr>"

definition holding :: "(nat \<Rightarrow> int) \<Rightarrow> planner" where
  "holding clk =
     \<lparr>agentId = ''test-agent'', store = [two_tasks], currentPlan = Some 0,
      isPlanningInProgress = False, logger = [], clock = clk, reads = 0\<rparr>"

text \<open>
  The completion scenario: a first cycle generates a plan, both of its subtasks are set to
  \<^verbatim>\<open>completed\<close>, a second cycle completes and clears it, a third cycle generates again.
\<close>

definition cycle1 :: planner where
  "cycle1 = snd (plan fresh)"

definition all_done :: planner where
  "all_done = snd (updateSubtaskStatus ''task-1000-2'' Completed
                     (snd (updateSubtaskStatus ''task-1000-1'' Completed cycle1)))"

definition cycle2 :: planner where
  "cycle2 = snd (plan all_done)"

definition cycle3 :: planner where
  "cycle3 = snd (plan cycle2)"

text \<open>The same planner at the point where both subtasks are completed, with a clock that advances.\<close>

definition ticking :: planner where
  "ticking = all_done\<lparr>clock := ticking_clock\<rparr>"






section \<open>Decimal rendering is injective\<close>

lemma string_of_nat_nonempty: "string_of_nat n \<noteq> []"
  by (subst string_of_nat.simps) simp

lemma digit_char_inj: "digit_char a = digit_char b \<Longrightarrow> a mod 10 = b mod 10"
proof -
  assume eq: "digit_char a = digit_char b"
  have d: "distinct ''0123456789''" by simp
  have la: "a mod 10 < length ''0123456789''" and lb: "b mod 10 < length ''0123456789''" by simp_all
  from eq have "''0123456789'' ! (a mod 10) = ''0123456789'' ! (b mod 10)"
    by (simp only: digit_char_def)
  with d la lb show ?thesis by (simp only: nth_eq_iff_index_eq)
qed

lemma digit_char_is_digit: "digit_char d \<in> set ''0123456789''"
  unfolding digit_char_def by (rule nth_mem) simp

lemma string_of_nat_digits: "set (string_of_nat n) \<subseteq> set ''0123456789''"
proof (induction n rule: string_of_nat.induct)
  case (1 n)
  show ?case
  proof (cases "n < 10")
    case True
    then show ?thesis using digit_char_is_digit [of n] by (subst string_of_nat.simps) simp
  next
    case False
    with 1 have "set (string_of_nat (n div 10)) \<subseteq> set ''0123456789''" by simp
    with False show ?thesis
      using digit_char_is_digit [of "n mod 10"] by (subst string_of_nat.simps) simp
  qed
qed

lemma string_of_nat_inj: "string_of_nat m = string_of_nat n \<Longrightarrow> m = n"
proof (induction m arbitrary: n rule: string_of_nat.induct)
  case (1 m)
  have um: "string_of_nat m =
      (if m < 10 then [digit_char m] else string_of_nat (m div 10) @ [digit_char (m mod 10)])"
    by (rule string_of_nat.simps)
  have un: "string_of_nat n =
      (if n < 10 then [digit_char n] else string_of_nat (n div 10) @ [digit_char (n mod 10)])"
    by (rule string_of_nat.simps)
  from "1.prems" have eq:
    "(if m < 10 then [digit_char m] else string_of_nat (m div 10) @ [digit_char (m mod 10)])
     = (if n < 10 then [digit_char n] else string_of_nat (n div 10) @ [digit_char (n mod 10)])"
    by (simp only: um [symmetric] un [symmetric])
  show ?case
  proof (cases "m < 10")
    case small_m: True
    show ?thesis
    proof (cases "n < 10")
      case True
      with small_m eq have "digit_char m = digit_char n" by simp
      then have "m mod 10 = n mod 10" by (rule digit_char_inj)
      with small_m True show ?thesis by simp
    next
      case False
      with small_m eq have "[digit_char m] = string_of_nat (n div 10) @ [digit_char (n mod 10)]"
        by simp
      then have "string_of_nat (n div 10) = []" by simp
      then show ?thesis by (simp add: string_of_nat_nonempty)
    qed
  next
    case big_m: False
    show ?thesis
    proof (cases "n < 10")
      case True
      with big_m eq have "string_of_nat (m div 10) @ [digit_char (m mod 10)] = [digit_char n]"
        by simp
      then have "string_of_nat (m div 10) = []" by simp
      then show ?thesis by (simp add: string_of_nat_nonempty)
    next
      case False
      with big_m eq
      have "string_of_nat (m div 10) @ [digit_char (m mod 10)]
            = string_of_nat (n div 10) @ [digit_char (n mod 10)]"
        by simp
      then have pre: "string_of_nat (m div 10) = string_of_nat (n div 10)"
        and lst: "digit_char (m mod 10) = digit_char (n mod 10)" by simp_all
      have q: "m div 10 = n div 10" using big_m pre by (rule "1.IH")
      have "m mod 10 mod 10 = n mod 10 mod 10" using lst by (rule digit_char_inj)
      then have r: "m mod 10 = n mod 10" by simp
      have "m = 10 * (m div 10) + m mod 10" by simp
      also have "\<dots> = 10 * (n div 10) + n mod 10" by (simp only: q r)
      also have "\<dots> = n" by simp
      finally show ?thesis .
    qed
  qed
qed

lemma string_of_int_inj: "string_of_int i = string_of_int j \<Longrightarrow> i = j"
proof -
  assume eq: "string_of_int i = string_of_int j"
  have no_minus: "CHR ''-'' # xs \<noteq> string_of_nat n" for xs n
  proof
    assume "CHR ''-'' # xs = string_of_nat n"
    then have "CHR ''-'' \<in> set (string_of_nat n)" by (metis list.set_intros(1))
    with string_of_nat_digits [of n] show False by auto
  qed
  show ?thesis
  proof (cases "i < 0")
    case neg_i: True
    show ?thesis
    proof (cases "j < 0")
      case True
      with neg_i eq have "string_of_nat (nat (- i)) = string_of_nat (nat (- j))"
        by (simp add: string_of_int_def)
      then have "nat (- i) = nat (- j)" by (rule string_of_nat_inj)
      with neg_i True show ?thesis by simp
    next
      case False
      with neg_i eq no_minus show ?thesis by (simp add: string_of_int_def)
    qed
  next
    case pos_i: False
    show ?thesis
    proof (cases "j < 0")
      case True
      with pos_i eq no_minus [of "string_of_nat (nat (- j))" "nat i"] show ?thesis
        by (simp add: string_of_int_def)
    next
      case False
      with pos_i eq have "string_of_nat (nat i) = string_of_nat (nat j)"
        by (simp add: string_of_int_def)
      then have "nat i = nat j" by (rule string_of_nat_inj)
      with pos_i False show ?thesis by simp
    qed
  qed
qed

section \<open>Trigger isolation\<close>

text \<open>
  As long as the catch block can build its record for every value that is thrown during
  the tick (\<open>report e = Inr (f e)\<close>), the run of the triggers resolves, the world is the one
  all units produced, one after the other in registration order, every unit was called
  once, and the sink has grown by one record for each unit that threw, in that order.
\<close>

lemma for_each_trigger_spies:
  assumes "\<forall>e\<in>set (thrown_of (outcomes ts w)). report e = Inr (f e)"
  shows "for_each_trigger report (map (\<lambda>(k, t). spy k t) (enumerate n ts)) (w, c) out =
     (None,
      (foldl (\<lambda>w t. snd (t w)) w ts,
       (\<lambda>j. c j + (if n \<le> j \<and> j < n + length ts then 1 else 0))),
      out @ map f (thrown_of (outcomes ts w)))"
  using assms
proof (induction ts arbitrary: n w c out)
  case Nil
  then show ?case by auto
next
  case (Cons t ts)
  obtain r w' where tw: "t w = (r, w')" by (cases "t w")
  define c' where "c' = c(n := c n + 1)"
  define out' where "out' = out @ (case r of None \<Rightarrow> [] | Some e \<Rightarrow> [f e])"
  have rendered: "report e = Inr (f e)" if "r = Some e" for e
    using Cons.prems that by (simp add: tw)
  have rest: "\<forall>e\<in>set (thrown_of (outcomes ts w')). report e = Inr (f e)"
    using Cons.prems by (cases r) (simp_all add: tw)
  have step: "for_each_trigger report (map (\<lambda>(k, t). spy k t) (enumerate n (t # ts))) (w, c) out =
      for_each_trigger report (map (\<lambda>(k, t). spy k t) (enumerate (Suc n) ts)) (w', c') out'"
  proof (cases r)
    case None
    then show ?thesis by (simp add: spy_def tw c'_def out'_def)
  next
    case (Some e)
    with rendered [OF Some] show ?thesis by (simp add: spy_def tw c'_def out'_def)
  qed
  have calls: "(\<lambda>j. c' j + (if Suc n \<le> j \<and> j < Suc n + length ts then 1 else 0))
      = (\<lambda>j. c j + (if n \<le> j \<and> j < n + length (t # ts) then 1 else 0))"
    by (rule ext) (auto simp: c'_def)
  have outs: "out' @ map f (thrown_of (outcomes ts w')) =
      out @ map f (thrown_of (outcomes (t # ts) w))"
    by (cases r) (simp_all add: out'_def tw)
  have world: "foldl (\<lambda>w t. snd (t w)) w' ts = foldl (\<lambda>w t. snd (t w)) w (t # ts)"
    by (simp add: tw)
  show ?case
    unfolding step Cons.IH [OF rest, of "Suc n" c' out'] calls outs world ..
qed

lemma thrown_of_never:
  "\<forall>j<length ts. \<forall>w. fst ((ts ! j) w) = None \<Longrightarrow> thrown_of (outcomes ts w) = []"
proof (induction ts arbitrary: w)
  case Nil
  then show ?case by simp
next
  case (Cons t ts)
  from Cons.prems have "fst (t w) = None" by (metis length_Cons nth_Cons_0 zero_less_Suc)
  moreover from Cons.prems have "\<forall>j<length ts. \<forall>w. fst ((ts ! j) w) = None" by auto
  ultimately show ?case using Cons.IH by simp
qed

lemma thrown_of_single:
  assumes "k < length ts"
    and "\<forall>w. fst ((ts ! k) w) = Some e"
    and "\<forall>j<length ts. j \<noteq> k \<longrightarrow> (\<forall>w. fst ((ts ! j) w) = None)"
  shows "thrown_of (outcomes ts w) = [e]"
  using assms
proof (induction ts arbitrary: k w)
  case Nil
  then show ?case by simp
next
  case (Cons t ts)
  show ?case
  proof (cases k)
    case 0
    with Cons.prems have head: "fst (t w) = Some e" by simp
    from Cons.prems 0 have "\<forall>j<length ts. \<forall>w. fst ((ts ! j) w) = None" by auto
    then have "thrown_of (outcomes ts (snd (t w))) = []" by (rule thrown_of_never)
    with head show ?thesis by simp
  next
    case (Suc k')
    with Cons.prems have head: "fst (t w) = None" by auto
    from Cons.prems Suc have "k' < length ts" "\<forall>w. fst ((ts ! k') w) = Some e" by auto
    moreover from Cons.prems Suc
    have "\<forall>j<length ts. j \<noteq> k' \<longrightarrow> (\<forall>w. fst ((ts ! j) w) = None)" by auto
    ultimately have "thrown_of (outcomes ts (snd (t w))) = [e]" by (rule Cons.IH)
    with head show ?thesis by simp
  qed
qed

text \<open>
  One failing unit among \<open>N\<close>: when unit \<open>k\<close> always fails with a value \<open>e\<close> that the catch
  block can render and the others never fail, one tick of the single-timer loop leaves
  the world that all \<open>N\<close> units produced in order, a call count of exactly one for every
  unit, and exactly one report. The two-timer loop does so for every \<open>e\<close>.
\<close>

lemma isolation_of_one_failure:
  assumes "k < length ts"
    and "\<forall>w. fst ((ts ! k) w) = Some e"
    and "\<forall>j<length ts. j \<noteq> k \<longrightarrow> (\<forall>w. fst ((ts ! j) w) = None)"
  shows "error_text e = Inr txt \<Longrightarrow>
         executeTriggers (l\<lparr>triggers := spies ts\<rparr>) (w, \<lambda>_. 0) lg =
           (None, (foldl (\<lambda>w t. snd (t w)) w ts, (\<lambda>j. if j < length ts then 1 else 0)),
            lg @ [trigger_error (runtime_agentId l) txt])"
    and "svc_executeTriggers (l'\<lparr>svc_triggers := spies ts\<rparr>) (w, \<lambda>_. 0) out =
           (None, (foldl (\<lambda>w t. snd (t w)) w ts, (\<lambda>j. if j < length ts then 1 else 0)),
            out @ [ConsoleError ''Error executing trigger:'' e])"
proof -
  note single = thrown_of_single [OF assms]
  show "executeTriggers (l\<lparr>triggers := spies ts\<rparr>) (w, \<lambda>_. 0) lg =
           (None, (foldl (\<lambda>w t. snd (t w)) w ts, (\<lambda>j. if j < length ts then 1 else 0)),
            lg @ [trigger_error (runtime_agentId l) txt])"
    if "error_text e = Inr txt"
  proof -
    define L where "L = l\<lparr>triggers := spies ts\<rparr>"
    have L: "triggers L = map (\<lambda>(k, t). spy k t) (enumerate 0 ts)"
      "runtime_agentId L = runtime_agentId l"
      by (simp_all add: L_def spies_def)
    have "\<forall>x\<in>set (thrown_of (outcomes ts w)).
            (case error_text x of Inl e' \<Rightarrow> Inl e'
             | Inr t \<Rightarrow> Inr (trigger_error (runtime_agentId L) t))
            = Inr (trigger_error (runtime_agentId L) txt)"
      using that by (simp add: single)
    from for_each_trigger_spies [OF this, of 0 "\<lambda>_. 0" lg]
    have "executeTriggers L (w, \<lambda>_. 0) lg =
           (None, (foldl (\<lambda>w t. snd (t w)) w ts, (\<lambda>j. if j < length ts then 1 else 0)),
            lg @ [trigger_error (runtime_agentId L) txt])"
      unfolding executeTriggers_def L(1) by (simp add: single)
    then show ?thesis by (simp add: L(2)) (simp add: L_def)
  qed
  have "\<forall>x\<in>set (thrown_of (outcomes ts w)).
          Inr (ConsoleError ''Error executing trigger:'' x)
          = (Inr (ConsoleError ''Error executing trigger:'' x) :: thrown + console_entry)"
    by simp
  from for_each_trigger_spies [OF this, of 0 "\<lambda>_. 0" out]
  show "svc_executeTriggers (l'\<lparr>svc_triggers := spies ts\<rparr>) (w, \<lambda>_. 0) out =
           (None, (foldl (\<lambda>w t. snd (t w)) w ts, (\<lambda>j. if j < length ts then 1 else 0)),
            out @ [ConsoleError ''Error executing trigger:'' e])"
    by (simp add: svc_executeTriggers_def spies_def single)
qed

text \<open>
  Claim C8. On a trigger tick every registered unit is invoked, one after the other in
  registration order; a unit that throws is caught and reported and the units after it
  still run, so that with \<open>N\<close> units of which one always fails the other \<open>N - 1\<close> have each
  been invoked once and the failure was reported once. Three units on a counter, the
  middle one throwing \<^verbatim>\<open>Object.create(null)\<close>: in the single-timer loop the catch block of
  \<^verbatim>\<open>executeTriggers\<close> throws while it renders the value, so the run rejects with that
  \<^verbatim>\<open>TypeError\<close>, the third unit is never called (the counter stops at \<open>1 + 10\<close>) and nothing
  is reported. The two-timer loop, whose catch block renders nothing itself, calls all
  three units and reports the failure once.
\<close>

theorem unrendered_failure_ends_the_tick:
  "(case executeTriggers ((new_loop ''agent'')\<lparr>triggers := spies [ok_unit, null_unit, ok_unit]\<rparr>)
          (0, \<lambda>_. 0) [] of
      (result, (counter, calls), reports) \<Rightarrow>
        result = Some (Error ''Cannot convert object to primitive value'')
        \<and> counter = 11 \<and> map calls [0, 1, 2] = [1, 1, 0] \<and> reports = [])
   \<and> (case svc_executeTriggers
            (\<lparr>svc_triggers = spies [ok_unit, null_unit, ok_unit], planningCallback = None,
              svc_loopTimer = None, planningTimer = None, triggerInterval = 10000,
              planningInterval = 60000, svc_isRunning = False\<rparr>)
            (0, \<lambda>_. 0) [] of
      (result, (counter, calls), reports) \<Rightarrow>
        result = None \<and> counter = 12 \<and> map calls [0, 1, 2] = [1, 1, 1]
        \<and> reports = [ConsoleError ''Error executing trigger:'' null_prototype_object])"
  by (simp add: executeTriggers_def svc_executeTriggers_def spies_def spy_def new_loop_def
      ok_unit_def null_unit_def null_prototype_object_def)

text \<open>
  The same three units with the middle one throwing an \<open>Error\<close>: every unit is called once
  and there is one report.
\<close>

lemma isolation_of_an_error:
  "executeTriggers ((new_loop ''agent'')\<lparr>triggers := spies [ok_unit, bad_unit, ok_unit]\<rparr>) (0, \<lambda>_. 0) [] =
      (None, (12, (\<lambda>j. if j < 3 then 1 else 0)), [trigger_error ''agent'' ''Trigger failure''])"
proof -
  have h1: "(1::nat) < length [ok_unit, bad_unit, ok_unit]" by simp
  have h2: "\<forall>w. fst (([ok_unit, bad_unit, ok_unit] ! 1) w) = Some (Error ''Trigger failure'')"
    by (simp add: bad_unit_def)
  have h3: "\<forall>j<length [ok_unit, bad_unit, ok_unit]. j \<noteq> 1 \<longrightarrow>
              (\<forall>w. fst (([ok_unit, bad_unit, ok_unit] ! j) w) = None)"
    by (auto simp: ok_unit_def nth_Cons' less_Suc_eq)
  have h4: "error_text (Error ''Trigger failure'') = Inr ''Trigger failure''" by simp
  note t = isolation_of_one_failure(1) [OF h1 h2 h3 h4, where w = 0 and lg = "[]"
      and l = "new_loop ''agent''"]
  show ?thesis using t by (simp add: new_loop_def ok_unit_def bad_unit_def numeral_3_eq_3)
qed

section \<open>The stateless planner: generation and the re-planning decision\<close>

lemma svc_generatePlan_ref: "fst (svc_generatePlan st w) = length (heap w)"
  by (simp add: svc_generatePlan_def new_subtask_def svc_Date_now_def random_1000_def
      Let_def split_def)

lemma svc_generatePlan_heap:
  "\<exists>p. heap (snd (svc_generatePlan st w)) = heap w @ [p]
       \<and> sp_status p = SvcCreated \<and> sp_metadata p = None
       \<and> length (sp_subtasks p) = 3
       \<and> list_all (\<lambda>task. ss_status task = Pending) (sp_subtasks p)"
  by (simp add: svc_generatePlan_def new_subtask_def svc_Date_now_def random_1000_def
      Let_def split_def)

lemma replan_not_needed:
  assumes "\<not> list_ex (\<lambda>task. ss_status task = Failed) (sp_subtasks (heap w ! r))"
  shows "fst (replanIfNeeded st (Some r) w) = Inr r"
    and "heap (snd (replanIfNeeded st (Some r) w)) = heap w"
  using assms by (simp_all add: replanIfNeeded_def console_log_def Let_def)

lemma heap_console_log: "heap (console_log line w) = heap w"
  by (simp add: console_log_def)

lemma svc_generatePlan_split:
  "heap (snd (svc_generatePlan st w)) = heap w @ [heap (snd (svc_generatePlan st w)) ! length (heap w)]"
  using svc_generatePlan_heap [of st w] by auto

lemma svc_generatePlan_new:
  "sp_status (heap (snd (svc_generatePlan st w)) ! length (heap w)) = SvcCreated"
  "list_all (\<lambda>task. ss_status task = Pending)
     (sp_subtasks (heap (snd (svc_generatePlan st w)) ! length (heap w)))"
  using svc_generatePlan_heap [of st w] by auto

lemma replan_needed_form:
  assumes "list_ex (\<lambda>task. ss_status task = Failed) (sp_subtasks (heap w ! r))"
  shows "\<exists>w2. heap w2 = heap w \<and>
           replanIfNeeded st (Some r) w =
             (Inr (length (heap w)),
              (snd (svc_generatePlan st w2))
                \<lparr>heap := (heap (snd (svc_generatePlan st w2)))
                   [length (heap w) := (heap (snd (svc_generatePlan st w2)) ! length (heap w))
                      \<lparr>sp_metadata := Some (lineage (heap (snd (svc_generatePlan st w2)) ! r))\<rparr>]\<rparr>)"
  apply (rule exI [of _ "console_log ''Detected failed tasks, generating new plan''
     (console_log (''Checking if plan '' @ sp_id (heap w ! r) @ '' needs updating'') w)"])
  using assms
  apply (simp add: replanIfNeeded_def Let_def split_def heap_console_log svc_generatePlan_ref)
  done

lemma replan_needed:
  fixes st :: agent_state and w :: svc_world and r :: nat
  assumes valid: "r < length (heap w)"
    and failed: "list_ex (\<lambda>task. ss_status task = Failed) (sp_subtasks (heap w ! r))"
  defines "w' \<equiv> snd (replanIfNeeded st (Some r) w)"
  shows "fst (replanIfNeeded st (Some r) w) = Inr (length (heap w))"
    and "length (heap w') = Suc (length (heap w))"
    and "\<forall>i<length (heap w). heap w' ! i = heap w ! i"
    and "sp_metadata (heap w' ! length (heap w)) = Some (lineage (heap w ! r))"
    and "sp_status (heap w' ! length (heap w)) = SvcCreated"
    and "list_all (\<lambda>task. ss_status task = Pending) (sp_subtasks (heap w' ! length (heap w)))"
proof -
  obtain w2 where h2: "heap w2 = heap w"
    and res: "replanIfNeeded st (Some r) w =
             (Inr (length (heap w)),
              (snd (svc_generatePlan st w2))
                \<lparr>heap := (heap (snd (svc_generatePlan st w2)))
                   [length (heap w) := (heap (snd (svc_generatePlan st w2)) ! length (heap w))
                      \<lparr>sp_metadata := Some (lineage (heap (snd (svc_generatePlan st w2)) ! r))\<rparr>]\<rparr>)"
    using replan_needed_form [OF failed] by blast
  define g where "g = snd (svc_generatePlan st w2)"
  have g: "heap g = heap w @ [heap g ! length (heap w)]"
    unfolding g_def using svc_generatePlan_split [of st w2] by (simp add: h2)
  have len: "length (heap g) = Suc (length (heap w))" by (subst g) simp
  have old: "heap g ! i = heap w ! i" if "i < length (heap w)" for i
    using that by (subst g) (simp add: nth_append)
  have new: "sp_status (heap g ! length (heap w)) = SvcCreated"
    "list_all (\<lambda>task. ss_status task = Pending) (sp_subtasks (heap g ! length (heap w)))"
    unfolding g_def using svc_generatePlan_new [of st w2] by (simp_all add: h2)
  note res' = res [folded g_def]
  show "fst (replanIfNeeded st (Some r) w) = Inr (length (heap w))" by (simp add: res')
  show "length (heap w') = Suc (length (heap w))" by (simp add: w'_def res' len)
  show "\<forall>i<length (heap w). heap w' ! i = heap w ! i" by (simp add: w'_def res' old)
  show "sp_metadata (heap w' ! length (heap w)) = Some (lineage (heap w ! r))"
    by (simp add: w'_def res' len old [OF valid])
  show "sp_status (heap w' ! length (heap w)) = SvcCreated" by (simp add: w'_def res' len new)
  show "list_all (\<lambda>task. ss_status task = Pending) (sp_subtasks (heap w' ! length (heap w)))"
    by (simp add: w'_def res' len new)
qed

text \<open>
  Claim C1. For a plan none of whose subtasks is failed, \<^verbatim>\<open>replanIfNeeded\<close> returns the
  reference it was given and leaves every plan object as it was; for a plan with a failed
  subtask it returns a reference to a new object, different from the given plan, whose
  \<^verbatim>\<open>metadata.previousPlanId\<close> is the id of the given plan.
\<close>

theorem replan_decision:
  assumes "r < length (heap w)"
  shows "(\<not> list_ex (\<lambda>task. ss_status task = Failed) (sp_subtasks (heap w ! r)) \<longrightarrow>
            fst (replanIfNeeded state (Some r) w) = Inr r
            \<and> heap (snd (replanIfNeeded state (Some r) w)) = heap w)
       \<and> (list_ex (\<lambda>task. ss_status task = Failed) (sp_subtasks (heap w ! r)) \<longrightarrow>
            fst (replanIfNeeded state (Some r) w) = Inr (length (heap w))
            \<and> length (heap w) \<noteq> r
            \<and> length (heap w) < length (heap (snd (replanIfNeeded state (Some r) w)))
            \<and> heap (snd (replanIfNeeded state (Some r) w)) ! length (heap w) \<noteq> heap w ! r
            \<and> map_option previousPlanId
                 (sp_metadata (heap (snd (replanIfNeeded state (Some r) w)) ! length (heap w)))
               = Some (Some (sp_id (heap w ! r))))"
proof (intro conjI impI)
  assume no: "\<not> list_ex (\<lambda>task. ss_status task = Failed) (sp_subtasks (heap w ! r))"
  show "fst (replanIfNeeded state (Some r) w) = Inr r"
    using no by (rule replan_not_needed)
  show "heap (snd (replanIfNeeded state (Some r) w)) = heap w"
    using no by (rule replan_not_needed)
next
  assume failed: "list_ex (\<lambda>task. ss_status task = Failed) (sp_subtasks (heap w ! r))"
  note n = replan_needed [OF assms failed, of state]
  show "fst (replanIfNeeded state (Some r) w) = Inr (length (heap w))" by (rule n)
  show "length (heap w) \<noteq> r" using assms by simp
  show "length (heap w) < length (heap (snd (replanIfNeeded state (Some r) w)))"
    by (simp add: n)
  show "map_option previousPlanId
          (sp_metadata (heap (snd (replanIfNeeded state (Some r) w)) ! length (heap w)))
        = Some (Some (sp_id (heap w ! r)))"
    by (simp add: n lineage_def)
  show "heap (snd (replanIfNeeded state (Some r) w)) ! length (heap w) \<noteq> heap w ! r"
  proof
    assume eq: "heap (snd (replanIfNeeded state (Some r) w)) ! length (heap w) = heap w ! r"
    have "list_all (\<lambda>task. ss_status task = Pending) (sp_subtasks (heap w ! r))"
      using n(6) by (simp add: eq)
    with failed show False by (auto simp: list_all_iff list_ex_iff)
  qed
qed

text \<open>
  The two plans of the scenarios above: \<open>P5\<close> comes back as it is, \<open>P0\<close> is replaced by the
  object at the next reference, which names \<open>P0\<close> as its predecessor.
\<close>

theorem replan_decision_witness:
  "fst (replanIfNeeded mock_state (Some 0) (world_of [P5])) = Inr 0
   \<and> heap (snd (replanIfNeeded mock_state (Some 0) (world_of [P5]))) = [P5]
   \<and> fst (replanIfNeeded mock_state (Some 0) (world_of [P0])) = Inr 1
   \<and> map_option previousPlanId
        (sp_metadata (heap (snd (replanIfNeeded mock_state (Some 0) (world_of [P0]))) ! 1))
      = Some (Some ''P0id'')"
proof -
  have v5: "0 < length (heap (world_of [P5]))" by (simp add: world_of_def)
  have v0: "0 < length (heap (world_of [P0]))" by (simp add: world_of_def)
  have ok5: "\<not> list_ex (\<lambda>task. ss_status task = Failed) (sp_subtasks (heap (world_of [P5]) ! 0))"
    by (simp add: world_of_def P5_def)
  have bad0: "list_ex (\<lambda>task. ss_status task = Failed) (sp_subtasks (heap (world_of [P0]) ! 0))"
    by (simp add: world_of_def P0_def)
  show ?thesis
    using replan_decision [OF v5, of mock_state] replan_decision [OF v0, of mock_state] ok5 bad0
    by (simp add: world_of_def P0_def)
qed


text \<open>What the replacement records in every case.\<close>

lemma lineage_root:
  "originalPlanCreatedAt (lineage p) =
     Some (case sp_metadata p of
             None \<Rightarrow> sp_createdAt p
           | Some m \<Rightarrow> (case originalPlanCreatedAt m of
                          None \<Rightarrow> sp_createdAt p
                        | Some t0 \<Rightarrow> if t0 = 0 then sp_createdAt p else t0))"
  by (simp add: lineage_def or_number_def split: option.splits)

text \<open>
  Claim C2. A replacement plan carries the creation time of the first ancestor: when the
  replaced plan already records \<^verbatim>\<open>metadata.originalPlanCreatedAt = T0\<close> the replacement records
  \<open>T0\<close> too, otherwise it records the replaced plan's \<^verbatim>\<open>createdAt\<close>. The code takes the
  recorded value with \<^verbatim>\<open>||\<close>, so a recorded \<open>T0 = 0\<close> counts as absent: for the plan \<open>Pz\<close>,
  which records \<open>0\<close> and was itself created at \<open>5000\<close>, the replacement records \<open>5000\<close>.
\<close>

theorem replan_lineage_at_epoch_root:
  "map_option originalPlanCreatedAt (sp_metadata (heap (world_of [Pz]) ! 0)) = Some (Some 0)
   \<and> sp_createdAt (heap (world_of [Pz]) ! 0) = 5000
   \<and> fst (replanIfNeeded mock_state (Some 0) (world_of [Pz])) = Inr 1
   \<and> map_option originalPlanCreatedAt
        (sp_metadata (heap (snd (replanIfNeeded mock_state (Some 0) (world_of [Pz]))) ! 1))
      = Some (Some 5000)"
proof -
  have v: "0 < length (heap (world_of [Pz]))" by (simp add: world_of_def)
  have bad: "list_ex (\<lambda>task. ss_status task = Failed) (sp_subtasks (heap (world_of [Pz]) ! 0))"
    by (simp add: world_of_def Pz_def)
  note n = replan_needed [OF v bad, of mock_state]
  have len: "length (heap (world_of [Pz])) = 1" by (simp add: world_of_def)
  have "sp_metadata (heap (snd (replanIfNeeded mock_state (Some 0) (world_of [Pz]))) ! 1)
          = Some (lineage (heap (world_of [Pz]) ! 0))"
    using n(4) by (simp add: len)
  moreover have "originalPlanCreatedAt (lineage (heap (world_of [Pz]) ! 0)) = Some 5000"
    by (simp add: lineage_root world_of_def Pz_def)
  moreover have "fst (replanIfNeeded mock_state (Some 0) (world_of [Pz])) = Inr 1"
    using n(1) by (simp add: len)
  ultimately show ?thesis by (simp add: world_of_def Pz_def)
qed

lemma count_status_total:
  "count_status Pending p + count_status InProgress p + count_status Completed p
     + count_status Failed p = length (sp_subtasks p)"
proof -
  have "length (filter (\<lambda>task. ss_status task = Pending) ts)
        + length (filter (\<lambda>task. ss_status task = InProgress) ts)
        + length (filter (\<lambda>task. ss_status task = Completed) ts)
        + length (filter (\<lambda>task. ss_status task = Failed) ts) = length ts" for ts :: "svc_subtask list"
  proof (induction ts)
    case Nil
    then show ?case by simp
  next
    case (Cons t ts)
    then show ?case by (cases "ss_status t") simp_all
  qed
  then show ?thesis by (simp add: count_status_def)
qed

text \<open>
  \<^verbatim>\<open>monitorPlan\<close> returns nothing: for the plans \<open>P0\<close> and \<open>P5\<close>, whose tallies differ, the
  result is the same \<^verbatim>\<open>void\<close>.
\<close>

theorem monitorPlan_result_counterexample:
  "fst (monitorPlan (Some 0) (world_of [P0])) = Inr ()
   \<and> fst (monitorPlan (Some 0) (world_of [P5])) = Inr ()
   \<and> (count_status Pending P0, count_status InProgress P0, count_status Completed P0,
       count_status Failed P0) = (0, 0, 1, 1)
   \<and> (count_status Pending P5, count_status InProgress P5, count_status Completed P5,
       count_status Failed P5) = (1, 0, 1, 0)"
  by (simp add: monitorPlan_def Let_def count_status_def P0_def P5_def)

text \<open>
  Claim C3, as the code has it. \<^verbatim>\<open>monitorPlan\<close> called without a plan fails with
  \<^verbatim>\<open>Error('Invalid plan provided')\<close> and changes nothing. Called with a plan it counts the
  subtasks per status (the four counts add up to the number of subtasks), writes two
  lines to the console, the second one carrying the four counts, and resolves with no
  value; the console is the only thing it changes, no plan or subtask is touched.
\<close>

theorem monitorPlan_reports:
  "monitorPlan None w = (Inl (Error ''Invalid plan provided''), w)
   \<and> monitorPlan (Some r) w =
       (Inr (),
        w\<lparr>console := console w @
             [ConsoleLog (''Monitoring plan '' @ sp_id (heap w ! r) @ '' with ''
                          @ string_of_nat (length (sp_subtasks (heap w ! r))) @ '' subtasks''),
              ConsoleLog (''Plan status: '' @ string_of_nat (count_status Pending (heap w ! r))
                          @ '' pending, '' @ string_of_nat (count_status InProgress (heap w ! r))
                          @ '' in progress, '' @ string_of_nat (count_status Completed (heap w ! r))
                          @ '' completed, '' @ string_of_nat (count_status Failed (heap w ! r))
                          @ '' failed'')]\<rparr>)
   \<and> heap (snd (monitorPlan (Some r) w)) = heap w
   \<and> count_status Pending (heap w ! r) + count_status InProgress (heap w ! r)
       + count_status Completed (heap w ! r) + count_status Failed (heap w ! r)
      = length (sp_subtasks (heap w ! r))"
proof (intro conjI)
  show "monitorPlan None w = (Inl (Error ''Invalid plan provided''), w)"
    by (simp add: monitorPlan_def)
  show result: "monitorPlan (Some r) w =
       (Inr (),
        w\<lparr>console := console w @
             [ConsoleLog (''Monitoring plan '' @ sp_id (heap w ! r) @ '' with ''
                          @ string_of_nat (length (sp_subtasks (heap w ! r))) @ '' subtasks''),
              ConsoleLog (''Plan status: '' @ string_of_nat (count_status Pending (heap w ! r))
                          @ '' pending, '' @ string_of_nat (count_status InProgress (heap w ! r))
                          @ '' in progress, '' @ string_of_nat (count_status Completed (heap w ! r))
                          @ '' completed, '' @ string_of_nat (count_status Failed (heap w ! r))
                          @ '' failed'')]\<rparr>)"
    by (simp add: monitorPlan_def Let_def console_log_def)
  show "heap (snd (monitorPlan (Some r) w)) = heap w"
    by (simp add: result)
  show "count_status Pending (heap w ! r) + count_status InProgress (heap w ! r)
       + count_status Completed (heap w ! r) + count_status Failed (heap w ! r)
      = length (sp_subtasks (heap w ! r))"
    by (rule count_status_total)
qed

text \<open>The console line the repository's test expects for a plan like \<open>P0\<close>.\<close>

lemma monitorPlan_console_P0:
  "console (snd (monitorPlan (Some 0) (world_of [P0]))) =
     [ConsoleLog ''Monitoring plan P0id with 2 subtasks'',
      ConsoleLog ''Plan status: 0 pending, 0 in progress, 1 completed, 1 failed'']"
  by (simp add: monitorPlan_def Let_def console_log_def count_status_def P0_def world_of_def
      digit_char_def string_of_nat.simps)

section \<open>The stateful planner\<close>

lemmas planner_defs = Date_now_def log_to_def update_plan_def Let_def split_def

lemma generatePlan_resolves: "fst (generatePlan s) = Inr ()"
  by (simp add: generatePlan_def planner_defs)

lemma generatePlan_slot: "currentPlan (snd (generatePlan s)) = Some (length (store s))"
  by (simp add: generatePlan_def planner_defs)

lemma generatePlan_store:
  "\<exists>p. store (snd (generatePlan s)) = store s @ [p]
       \<and> p_id p = ''plan-'' @ string_of_int (clock s (reads s))
       \<and> p_status p = Active
       \<and> list_all (\<lambda>task. st_status task = Pending) (p_subtasks p)
       \<and> length (p_subtasks p) = 2"
  by (simp add: generatePlan_def planner_defs)

lemma generatePlan_flag:
  "isPlanningInProgress (snd (generatePlan s)) = isPlanningInProgress s"
  by (simp add: generatePlan_def planner_defs)

lemma generatePlan_old:
  "r < length (store s) \<Longrightarrow> store (snd (generatePlan s)) ! r = store s ! r"
  using generatePlan_store [of s] by (auto simp: nth_append)

lemma generatePlan_length: "length (store (snd (generatePlan s))) = Suc (length (store s))"
  using generatePlan_store [of s] by auto

lemma generatePlan_new:
  "p_id (store (snd (generatePlan s)) ! length (store s)) = ''plan-'' @ string_of_int (clock s (reads s))"
  "p_status (store (snd (generatePlan s)) ! length (store s)) = Active"
  "list_all (\<lambda>task. st_status task = Pending) (p_subtasks (store (snd (generatePlan s)) ! length (store s)))"
  using generatePlan_store [of s] by auto

lemma plan_eq:
  "plan s =
    (Inr (),
     (if isPlanningInProgress s then s\<lparr>logger := logger s @ [planning_skipped (agentId s)]\<rparr>
      else case currentPlan s of
             None \<Rightarrow> (snd (generatePlan (s\<lparr>isPlanningInProgress := True\<rparr>)))\<lparr>isPlanningInProgress := False\<rparr>
           | Some r \<Rightarrow>
               (let s1 = log_to LInfo ''check_plan_progress'' [(''planId'', p_id (store s ! r))]
                           ''Checking plan progress'' (s\<lparr>isPlanningInProgress := True\<rparr>)
                in (if isAllSubtasksCompleted s1 then completePlan s1 else s1)
                     \<lparr>isPlanningInProgress := False\<rparr>)))"
proof -
  obtain s' where g: "generatePlan (s\<lparr>isPlanningInProgress := True\<rparr>) = (Inr (), s')"
    using generatePlan_resolves [of "s\<lparr>isPlanningInProgress := True\<rparr>"]
    by (cases "generatePlan (s\<lparr>isPlanningInProgress := True\<rparr>)") auto
  show ?thesis
    by (simp add: plan_def plan_with_def plan_body_def checkPlanProgress_def g Let_def
        log_to_def split: option.splits)
qed


lemma slot_ok_flag: "slot_ok (s\<lparr>isPlanningInProgress := b\<rparr>) = slot_ok s"
  by (simp add: slot_ok_def split: option.splits)

lemma slot_ok_logger: "slot_ok (s\<lparr>logger := l\<rparr>) = slot_ok s"
  by (simp add: slot_ok_def split: option.splits)

lemma slot_ok_log_to: "slot_ok (log_to lv a d m s) = slot_ok s"
  by (simp add: slot_ok_def log_to_def split: option.splits)

lemma slot_ok_generatePlan: "slot_ok (snd (generatePlan s))"
  using generatePlan_store [of s] by (auto simp: slot_ok_def generatePlan_slot)

lemma slot_ok_completePlan: "slot_ok (completePlan s)"
  by (simp add: slot_ok_def completePlan_def planner_defs split: option.splits)

lemma slot_ok_handleDiscrepancies:
  "slot_ok s \<Longrightarrow> slot_ok (snd (handleDiscrepancies_with generatePlan ds s))"
  by (simp add: handleDiscrepancies_with_def Let_def slot_ok_generatePlan slot_ok_log_to)

lemma slot_ok_plan_body:
  assumes chk: "\<forall>s. slot_ok s \<longrightarrow> slot_ok (snd (chk s))"
    and ok: "slot_ok s"
  shows "slot_ok (snd (plan_body generatePlan chk s))"
proof (cases "currentPlan s")
  case None
  then show ?thesis by (simp add: plan_body_def slot_ok_generatePlan)
next
  case (Some r)
  obtain res s1 where c: "chk s = (res, s1)" by (cases "chk s")
  with chk ok have ok1: "slot_ok s1" by (metis snd_conv)
  show ?thesis
  proof (cases res)
    case (Inl e)
    with Some c ok1 show ?thesis by (simp add: plan_body_def)
  next
    case (Inr ds)
    define h where "h = (if ds \<noteq> [] then handleDiscrepancies_with generatePlan ds s1 else (Inr (), s1))"
    have okh: "slot_ok (snd h)"
      using ok1 by (simp add: h_def slot_ok_handleDiscrepancies)
    obtain hr s2 where h: "h = (hr, s2)" by (cases h)
    with okh have ok2: "slot_ok s2" by simp
    have "snd (plan_body generatePlan chk s) =
            (case hr of Inl e \<Rightarrow> s2
             | Inr _ \<Rightarrow> if currentPlan s2 \<noteq> None \<and> isAllSubtasksCompleted s2
                        then completePlan s2 else s2)"
      using Some c Inr h by (simp add: plan_body_def h_def [symmetric] split: sum.splits)
    then show ?thesis using ok2 by (simp add: slot_ok_completePlan split: sum.splits)
  qed
qed

lemma slot_ok_plan_with:
  assumes chk: "\<forall>s. slot_ok s \<longrightarrow> slot_ok (snd (chk s))"
    and ok: "slot_ok s"
  shows "slot_ok (snd (plan_with generatePlan chk s))"
proof (cases "isPlanningInProgress s")
  case True
  with ok show ?thesis by (simp add: plan_with_def slot_ok_logger)
next
  case False
  obtain res s1 where b: "plan_body generatePlan chk (s\<lparr>isPlanningInProgress := True\<rparr>) = (res, s1)"
    by (cases "plan_body generatePlan chk (s\<lparr>isPlanningInProgress := True\<rparr>)")
  have "slot_ok (snd (plan_body generatePlan chk (s\<lparr>isPlanningInProgress := True\<rparr>)))"
    using chk ok by (intro slot_ok_plan_body) (simp_all add: slot_ok_flag)
  then have "slot_ok s1" by (simp add: b)
  with False b show ?thesis
    by (cases res)
      (simp_all add: plan_with_def slot_ok_flag slot_ok_log_to split: sum.splits)
qed

lemma slot_ok_checkPlanProgress: "slot_ok s \<longrightarrow> slot_ok (snd (checkPlanProgress s))"
  by (simp add: checkPlanProgress_def slot_ok_log_to split: option.splits)

lemma slot_ok_updateSubtaskStatus:
  "slot_ok s \<Longrightarrow> slot_ok (snd (updateSubtaskStatus i st s))"
  by (auto simp: updateSubtaskStatus_def slot_ok_def planner_defs split: option.splits)

text \<open>
  Claim C9. After every public operation of the planner the current-plan slot is empty or
  holds one stored plan with a current status, which for this \<^verbatim>\<open>Plan\<close> type is \<^verbatim>\<open>"active"\<close>:
  the invariant holds for a new planner and is kept by \<^verbatim>\<open>plan\<close> (also when the progress
  check reports discrepancies, critical or not) and by \<^verbatim>\<open>updateSubtaskStatus\<close>;
  \<^verbatim>\<open>getCurrentPlan\<close> only reads the slot.
\<close>

theorem current_plan_slot_invariant:
  "slot_ok (new_planner aid clk)
   \<and> (slot_ok s \<longrightarrow> slot_ok (snd (plan s)))
   \<and> (slot_ok s \<longrightarrow> slot_ok (snd (plan_with generatePlan (\<lambda>s. (Inr discrepancies, s)) s)))
   \<and> (slot_ok s \<longrightarrow> slot_ok (snd (updateSubtaskStatus subtaskId status s)))
   \<and> (slot_ok s \<longrightarrow> getCurrentPlan s = None
         \<or> (\<exists>r. getCurrentPlan s = Some r \<and> r < length (store s) \<and> p_status (store s ! r) = Active))"
proof (intro conjI impI)
  show "slot_ok (new_planner aid clk)" by (simp add: slot_ok_def new_planner_def)
  show "slot_ok (snd (plan s))" if "slot_ok s"
    unfolding plan_def using slot_ok_checkPlanProgress that by (intro slot_ok_plan_with) auto
  show "slot_ok (snd (plan_with generatePlan (\<lambda>s. (Inr discrepancies, s)) s))" if "slot_ok s"
    using that by (intro slot_ok_plan_with) auto
  show "slot_ok (snd (updateSubtaskStatus subtaskId status s))" if "slot_ok s"
    using that by (rule slot_ok_updateSubtaskStatus)
  show "getCurrentPlan s = None
         \<or> (\<exists>r. getCurrentPlan s = Some r \<and> r < length (store s) \<and> p_status (store s ! r) = Active)"
    if "slot_ok s"
    using that by (auto simp: slot_ok_def getCurrentPlan_def split: option.splits)
qed

text \<open>
  From a new planner: the first cycle installs the plan at reference \<open>0\<close>, and the slot stays
  in order through a critical discrepancy and a status update.
\<close>

theorem current_plan_slot_invariant_witness:
  "slot_ok fresh \<and> slot_ok (snd (plan fresh)) \<and> getCurrentPlan (snd (plan fresh)) = Some 0
   \<and> slot_ok (snd (plan_with generatePlan
                       (\<lambda>s. (Inr [''CRITICAL: Major state deviation detected''], s))
                       (snd (plan fresh))))
   \<and> slot_ok (snd (updateSubtaskStatus ''task-1000-1'' Completed (snd (plan fresh))))"
proof -
  note a = current_plan_slot_invariant [of "''test-agent''" "frozen 1000" fresh]
  note b = current_plan_slot_invariant [of "''test-agent''" "frozen 1000" "snd (plan fresh)"
      "[''CRITICAL: Major state deviation detected'']" "''task-1000-1''" Completed]
  have ok0: "slot_ok fresh" using a by (simp add: fresh_def)
  have ok1: "slot_ok (snd (plan fresh))" using a ok0 by blast
  have cur: "getCurrentPlan (snd (plan fresh)) = Some 0"
    by (simp add: getCurrentPlan_def plan_eq generatePlan_slot fresh_def new_planner_def)
  show ?thesis using ok0 ok1 cur b by blast
qed




lemma plan_fresh:
  "currentPlan (snd (plan fresh)) = Some 0" "length (store (snd (plan fresh))) = 1"
  "\<not> isPlanningInProgress (snd (plan fresh))"
  by (simp_all add: plan_eq generatePlan_slot generatePlan_length generatePlan_flag
      fresh_def new_planner_def)

lemma assign_status_found:
  "find (\<lambda>task. st_id task = i) ts = Some t \<Longrightarrow>
   find (\<lambda>task. st_id task = i) (assign_status i st ts) = Some (t\<lparr>st_status := st\<rparr>)"
  by (induction ts) (auto split: if_splits)

lemma assign_status_others:
  "k < length ts \<Longrightarrow> st_id (ts ! k) \<noteq> i \<Longrightarrow> assign_status i st ts ! k = ts ! k"
proof (induction ts arbitrary: k)
  case Nil
  then show ?case by simp
next
  case (Cons t ts)
  then show ?case by (cases k) auto
qed

lemma plan_keeps_subtasks:
  assumes "k < length (store s)"
  shows "p_subtasks (store (snd (plan s)) ! k) = p_subtasks (store s ! k)"
proof (cases "isPlanningInProgress s")
  case True
  then show ?thesis by (simp add: plan_eq)
next
  case idle: False
  show ?thesis
  proof (cases "currentPlan s")
    case None
    with idle assms show ?thesis by (simp add: plan_eq generatePlan_old)
  next
    case (Some r)
    with idle assms show ?thesis
      by (cases "k = r")
        (simp_all add: plan_eq Let_def completePlan_def isAllSubtasksCompleted_def planner_defs)
  qed
qed

text \<open>
  No subtask carries a timestamp: the update leaves subtasks that are the same whatever
  the clock reads, while the plan's \<^verbatim>\<open>updatedAt\<close> follows the clock.
\<close>

theorem updateSubtaskStatus_timestamp_counterexample:
  "fst (updateSubtaskStatus ''t1'' Completed (holding (frozen 5000))) = True
   \<and> p_subtasks (store (snd (updateSubtaskStatus ''t1'' Completed (holding (frozen 5000)))) ! 0)
       = [\<lparr>st_id = ''t1'', st_description = ''Example subtask 1'', st_status = Completed,
           st_dependencies = None\<rparr>,
          \<lparr>st_id = ''t2'', st_description = ''Example subtask 2'', st_status = Pending,
           st_dependencies = Some [''t1'']\<rparr>]
   \<and> p_subtasks (store (snd (updateSubtaskStatus ''t1'' Completed (holding (frozen 9000)))) ! 0)
       = p_subtasks (store (snd (updateSubtaskStatus ''t1'' Completed (holding (frozen 5000)))) ! 0)
   \<and> p_updatedAt (store (snd (updateSubtaskStatus ''t1'' Completed (holding (frozen 5000)))) ! 0) = 5000
   \<and> p_updatedAt (store (snd (updateSubtaskStatus ''t1'' Completed (holding (frozen 9000)))) ! 0) = 9000"
  by (simp add: updateSubtaskStatus_def holding_def two_tasks_def planner_defs frozen_def)

text \<open>
  Claim C5, as the code has it. \<^verbatim>\<open>updateSubtaskStatus\<close> returns \<^verbatim>\<open>false\<close> and changes nothing
  when there is no current plan or no subtask with the id. Otherwise it returns \<^verbatim>\<open>true\<close>,
  sets the status of the first subtask with that id, leaves the other subtasks as they
  were and sets the plan's \<^verbatim>\<open>updatedAt\<close> to the clock reading; a subtask of this variant has
  no \<^verbatim>\<open>updatedAt\<close> of its own. The other mutating operation, \<^verbatim>\<open>plan\<close>, never changes the
  subtasks of a stored plan.
\<close>

theorem updateSubtaskStatus_contract:
  "(currentPlan s = None \<longrightarrow> updateSubtaskStatus subtaskId status s = (False, s))
   \<and> (currentPlan s = Some r
        \<and> find (\<lambda>task. st_id task = subtaskId) (p_subtasks (store s ! r)) = None \<longrightarrow>
        updateSubtaskStatus subtaskId status s = (False, s))
   \<and> (currentPlan s = Some r \<and> r < length (store s)
        \<and> find (\<lambda>task. st_id task = subtaskId) (p_subtasks (store s ! r)) = Some t \<longrightarrow>
        fst (updateSubtaskStatus subtaskId status s) = True
        \<and> store (snd (updateSubtaskStatus subtaskId status s)) =
            (store s)[r := (store s ! r)
               \<lparr>p_subtasks := assign_status subtaskId status (p_subtasks (store s ! r)),
                p_updatedAt := clock s (reads s)\<rparr>]
        \<and> currentPlan (snd (updateSubtaskStatus subtaskId status s)) = Some r
        \<and> find (\<lambda>task. st_id task = subtaskId)
             (assign_status subtaskId status (p_subtasks (store s ! r)))
           = Some (t\<lparr>st_status := status\<rparr>)
        \<and> (\<forall>k<length (p_subtasks (store s ! r)).
              st_id (p_subtasks (store s ! r) ! k) \<noteq> subtaskId \<longrightarrow>
              assign_status subtaskId status (p_subtasks (store s ! r)) ! k
                = p_subtasks (store s ! r) ! k))
   \<and> (k < length (store s) \<longrightarrow>
        p_subtasks (store (snd (plan s)) ! k) = p_subtasks (store s ! k))"
proof (intro conjI impI allI)
  show "updateSubtaskStatus subtaskId status s = (False, s)" if "currentPlan s = None"
    using that by (simp add: updateSubtaskStatus_def)
  show "updateSubtaskStatus subtaskId status s = (False, s)"
    if "currentPlan s = Some r
        \<and> find (\<lambda>task. st_id task = subtaskId) (p_subtasks (store s ! r)) = None"
    using that by (simp add: updateSubtaskStatus_def)
  show "p_subtasks (store (snd (plan s)) ! k) = p_subtasks (store s ! k)" if "k < length (store s)"
    using that by (rule plan_keeps_subtasks)
next
  assume a: "currentPlan s = Some r \<and> r < length (store s)
        \<and> find (\<lambda>task. st_id task = subtaskId) (p_subtasks (store s ! r)) = Some t"
  show "fst (updateSubtaskStatus subtaskId status s) = True"
    using a by (simp add: updateSubtaskStatus_def planner_defs)
  show "store (snd (updateSubtaskStatus subtaskId status s)) =
            (store s)[r := (store s ! r)
               \<lparr>p_subtasks := assign_status subtaskId status (p_subtasks (store s ! r)),
                p_updatedAt := clock s (reads s)\<rparr>]"
    using a by (simp add: updateSubtaskStatus_def planner_defs)
  show "currentPlan (snd (updateSubtaskStatus subtaskId status s)) = Some r"
    using a by (simp add: updateSubtaskStatus_def planner_defs)
  show "find (\<lambda>task. st_id task = subtaskId)
             (assign_status subtaskId status (p_subtasks (store s ! r)))
           = Some (t\<lparr>st_status := status\<rparr>)"
    using a by (simp add: assign_status_found)
  show "assign_status subtaskId status (p_subtasks (store s ! r)) ! k
                = p_subtasks (store s ! r) ! k"
    if "k < length (p_subtasks (store s ! r))" "st_id (p_subtasks (store s ! r) ! k) \<noteq> subtaskId"
    for k
    using that by (rule assign_status_others)
qed

text \<open>The three cases on concrete planners, and a cycle of \<^verbatim>\<open>plan\<close> on the plan of two subtasks.\<close>

theorem updateSubtaskStatus_contract_witness:
  "updateSubtaskStatus ''t1'' Completed fresh = (False, fresh)
   \<and> updateSubtaskStatus ''non-existent-id'' Completed (holding (frozen 5000))
       = (False, holding (frozen 5000))
   \<and> fst (updateSubtaskStatus ''t1'' InProgress (holding (frozen 5000))) = True
   \<and> map st_status
        (p_subtasks (store (snd (updateSubtaskStatus ''t1'' InProgress (holding (frozen 5000)))) ! 0))
       = [InProgress, Pending]
   \<and> p_updatedAt (store (snd (updateSubtaskStatus ''t1'' InProgress (holding (frozen 5000)))) ! 0) = 5000
   \<and> p_subtasks (store (snd (plan (holding (frozen 5000)))) ! 0) = p_subtasks two_tasks"
proof -
  have none: "currentPlan fresh = None" by (simp add: fresh_def new_planner_def)
  have cur: "currentPlan (holding (frozen 5000)) = Some 0" by (simp add: holding_def)
  have len: "0 < length (store (holding (frozen 5000)))" by (simp add: holding_def)
  have missing: "find (\<lambda>task. st_id task = ''non-existent-id'')
                   (p_subtasks (store (holding (frozen 5000)) ! 0)) = None"
    by (simp add: holding_def two_tasks_def)
  have found: "find (\<lambda>task. st_id task = ''t1'') (p_subtasks (store (holding (frozen 5000)) ! 0))
      = Some \<lparr>st_id = ''t1'', st_description = ''Example subtask 1'', st_status = Pending,
          st_dependencies = None\<rparr>"
    by (simp add: holding_def two_tasks_def)
  show ?thesis
    using updateSubtaskStatus_contract [of fresh "''t1''" Completed 0
        "\<lparr>st_id = ''t1'', st_description = ''Example subtask 1'', st_status = Pending,
          st_dependencies = None\<rparr>" 0]
      updateSubtaskStatus_contract [of "holding (frozen 5000)" "''non-existent-id''" Completed 0
        "\<lparr>st_id = ''t1'', st_description = ''Example subtask 1'', st_status = Pending,
          st_dependencies = None\<rparr>" 0]
      updateSubtaskStatus_contract [of "holding (frozen 5000)" "''t1''" InProgress 0
        "\<lparr>st_id = ''t1'', st_description = ''Example subtask 1'', st_status = Pending,
          st_dependencies = None\<rparr>" 0]
      none cur len missing found
    by (simp add: holding_def two_tasks_def frozen_def)
qed

subsection \<open>Completion\<close>

lemmas cycle_defs = plan_def plan_with_def plan_body_def generatePlan_def checkPlanProgress_def
  isAllSubtasksCompleted_def completePlan_def updateSubtaskStatus_def planner_defs
  fresh_def new_planner_def frozen_def string_of_int_def string_of_nat.simps digit_char_def

lemma cycle1_eval:
  "currentPlan cycle1 = Some 0" "isPlanningInProgress cycle1 = False"
  "store cycle1 =
     [\<lparr>p_id = ''plan-1000'', p_goal = ''Default goal'',
       p_subtasks =
         [\<lparr>st_id = ''task-1000-1'', st_description = ''Example subtask 1'', st_status = Pending,
           st_dependencies = None\<rparr>,
          \<lparr>st_id = ''task-1000-2'', st_description = ''Example subtask 2'', st_status = Pending,
           st_dependencies = Some [''task-1000-1'']\<rparr>],
       p_createdAt = 1000, p_updatedAt = 1000, p_status = Active\<rparr>]"
  "clock cycle1 = frozen 1000" "reads cycle1 = 6"
  by (simp_all add: cycle1_def cycle_defs)

lemma all_done_eval:
  "currentPlan all_done = Some 0" "isPlanningInProgress all_done = False"
  "store all_done =
     [\<lparr>p_id = ''plan-1000'', p_goal = ''Default goal'',
       p_subtasks =
         [\<lparr>st_id = ''task-1000-1'', st_description = ''Example subtask 1'', st_status = Completed,
           st_dependencies = None\<rparr>,
          \<lparr>st_id = ''task-1000-2'', st_description = ''Example subtask 2'', st_status = Completed,
           st_dependencies = Some [''task-1000-1'']\<rparr>],
       p_createdAt = 1000, p_updatedAt = 1000, p_status = Active\<rparr>]"
  "clock all_done = frozen 1000" "reads all_done = 8"
  by (simp_all add: all_done_def updateSubtaskStatus_def planner_defs cycle1_eval frozen_def)

lemma cycle2_eval:
  "currentPlan cycle2 = None" "isPlanningInProgress cycle2 = False"
  "store cycle2 =
     [\<lparr>p_id = ''plan-1000'', p_goal = ''Default goal'',
       p_subtasks =
         [\<lparr>st_id = ''task-1000-1'', st_description = ''Example subtask 1'', st_status = Completed,
           st_dependencies = None\<rparr>,
          \<lparr>st_id = ''task-1000-2'', st_description = ''Example subtask 2'', st_status = Completed,
           st_dependencies = Some [''task-1000-1'']\<rparr>],
       p_createdAt = 1000, p_updatedAt = 1000, p_status = PlanCompleted\<rparr>]"
  "clock cycle2 = frozen 1000"
  by (simp_all add: cycle2_def plan_eq Let_def isAllSubtasksCompleted_def completePlan_def
      planner_defs all_done_eval frozen_def)

text \<open>
  Claim C6. When \<^verbatim>\<open>plan\<close> runs on a current plan all of whose subtasks are completed, the
  plan is marked \<^verbatim>\<open>completed\<close> and the slot is cleared, so that the next cycle generates a
  fresh plan with a different id. In the scenario above the first cycle, the two updates
  and the next two cycles all read the clock at \<open>1000\<close>: the second cycle marks the plan
  \<^verbatim>\<open>plan-1000\<close> completed and clears the slot, and the third cycle installs a new plan,
  at a new reference, whose id is \<^verbatim>\<open>plan-1000\<close> again, since \<^verbatim>\<open>generatePlan\<close> builds the id from
  the clock reading alone.
\<close>

theorem same_millisecond_same_id:
  "getCurrentPlan cycle1 = Some 0
   \<and> p_id (store cycle1 ! 0) = ''plan-1000''
   \<and> map st_status (p_subtasks (store all_done ! 0)) = [Completed, Completed]
   \<and> getCurrentPlan cycle2 = None
   \<and> p_status (store cycle2 ! 0) = PlanCompleted
   \<and> getCurrentPlan cycle3 = Some 1
   \<and> p_id (store cycle3 ! 0) = ''plan-1000''
   \<and> p_id (store cycle3 ! 1) = ''plan-1000''"
proof -
  have c3: "cycle3 = (snd (generatePlan (cycle2\<lparr>isPlanningInProgress := True\<rparr>)))
                       \<lparr>isPlanningInProgress := False\<rparr>"
    by (simp add: cycle3_def plan_eq cycle2_eval)
  have len: "length (store cycle2) = 1"
    by (simp add: cycle2_eval)
  have "currentPlan cycle3 = Some 1"
    using generatePlan_slot [of "cycle2\<lparr>isPlanningInProgress := True\<rparr>"] by (simp add: c3 len)
  moreover have "p_id (store cycle3 ! 1) = ''plan-1000''"
    using generatePlan_new(1) [of "cycle2\<lparr>isPlanningInProgress := True\<rparr>"]
    by (simp add: c3 len cycle2_eval frozen_def string_of_int_def string_of_nat.simps digit_char_def)
  moreover have "p_id (store cycle3 ! 0) = ''plan-1000''"
    using generatePlan_old [of 0 "cycle2\<lparr>isPlanningInProgress := True\<rparr>"]
    by (simp add: c3 cycle2_eval)
  ultimately show ?thesis
    by (simp add: getCurrentPlan_def cycle1_eval all_done_eval cycle2_eval)
qed

lemma plan_generates:
  assumes "\<not> isPlanningInProgress s" "currentPlan s = None"
  shows "currentPlan (snd (plan s)) = Some (length (store s))"
    and "length (store (snd (plan s))) = Suc (length (store s))"
    and "\<forall>k<length (store s). store (snd (plan s)) ! k = store s ! k"
    and "p_id (store (snd (plan s)) ! length (store s)) = ''plan-'' @ string_of_int (clock s (reads s))"
    and "p_status (store (snd (plan s)) ! length (store s)) = Active"
    and "list_all (\<lambda>task. st_status task = Pending) (p_subtasks (store (snd (plan s)) ! length (store s)))"
    and "\<not> isPlanningInProgress (snd (plan s))"
proof -
  define s1 where "s1 = s\<lparr>isPlanningInProgress := True\<rparr>"
  have p: "snd (plan s) = (snd (generatePlan s1))\<lparr>isPlanningInProgress := False\<rparr>"
    using assms by (simp add: plan_eq s1_def)
  have s1: "store s1 = store s" "clock s1 = clock s" "reads s1 = reads s" by (simp_all add: s1_def)
  show "currentPlan (snd (plan s)) = Some (length (store s))"
    using generatePlan_slot [of s1] by (simp add: p s1)
  show "length (store (snd (plan s))) = Suc (length (store s))"
    using generatePlan_length [of s1] by (simp add: p s1)
  show "\<forall>k<length (store s). store (snd (plan s)) ! k = store s ! k"
    using generatePlan_old [of _ s1] by (simp add: p s1)
  show "p_id (store (snd (plan s)) ! length (store s)) = ''plan-'' @ string_of_int (clock s (reads s))"
    using generatePlan_new(1) [of s1] by (simp add: p s1)
  show "p_status (store (snd (plan s)) ! length (store s)) = Active"
    using generatePlan_new(2) [of s1] by (simp add: p s1)
  show "list_all (\<lambda>task. st_status task = Pending) (p_subtasks (store (snd (plan s)) ! length (store s)))"
    using generatePlan_new(3) [of s1] by (simp add: p s1)
  show "\<not> isPlanningInProgress (snd (plan s))" by (simp add: p)
qed

lemma plan_completes:
  assumes "\<not> isPlanningInProgress s" "currentPlan s = Some r" "r < length (store s)"
    and "list_all (\<lambda>task. st_status task = Completed) (p_subtasks (store s ! r))"
  shows "currentPlan (snd (plan s)) = None"
    and "store (snd (plan s)) =
           (store s)[r := (store s ! r)\<lparr>p_status := PlanCompleted, p_updatedAt := clock s (reads s)\<rparr>]"
    and "\<not> isPlanningInProgress (snd (plan s))"
    and "clock (snd (plan s)) = clock s"
    and "reads (snd (plan s)) = Suc (reads s)"
  using assms
  by (simp_all add: plan_eq Let_def isAllSubtasksCompleted_def completePlan_def planner_defs)

text \<open>
  What completion does for every planner and clock. When \<^verbatim>\<open>plan\<close> runs (not re-entered) on a
  current plan all of whose subtasks are completed, the plan's status becomes \<^verbatim>\<open>completed\<close>,
  its \<^verbatim>\<open>updatedAt\<close> is set and the slot is cleared; the next cycle installs a newly generated
  plan (a new object, active, all subtasks pending) and leaves the completed plan as it
  is. The new id is \<^verbatim>\<open>plan-\<close> followed by the clock reading at generation, so it differs from
  the id of a completed plan that was generated at another reading. The second part states
  what any cycle does when the slot is empty.
\<close>

theorem completed_plan_is_cleared:
  "(\<not> isPlanningInProgress s \<and> currentPlan s = Some r \<and> r < length (store s)
    \<and> list_all (\<lambda>task. st_status task = Completed) (p_subtasks (store s ! r)) \<longrightarrow>
      getCurrentPlan (snd (plan s)) = None
      \<and> store (snd (plan s)) =
          (store s)[r := (store s ! r)\<lparr>p_status := PlanCompleted, p_updatedAt := clock s (reads s)\<rparr>]
      \<and> getCurrentPlan (snd (plan (snd (plan s)))) = Some (length (store s))
      \<and> length (store s) \<noteq> r
      \<and> store (snd (plan (snd (plan s)))) ! r = store (snd (plan s)) ! r
      \<and> p_status (store (snd (plan (snd (plan s)))) ! length (store s)) = Active
      \<and> list_all (\<lambda>task. st_status task = Pending)
           (p_subtasks (store (snd (plan (snd (plan s)))) ! length (store s)))
      \<and> p_id (store (snd (plan (snd (plan s)))) ! length (store s))
          = ''plan-'' @ string_of_int (clock s (Suc (reads s)))
      \<and> (\<forall>t0. p_id (store s ! r) = ''plan-'' @ string_of_int t0 \<and> t0 \<noteq> clock s (Suc (reads s)) \<longrightarrow>
            p_id (store (snd (plan (snd (plan s)))) ! length (store s)) \<noteq> p_id (store (snd (plan s)) ! r)))
   \<and> (\<not> isPlanningInProgress s \<and> getCurrentPlan s = None \<longrightarrow>
      getCurrentPlan (snd (plan s)) = Some (length (store s))
      \<and> (\<forall>k<length (store s). store (snd (plan s)) ! k = store s ! k)
      \<and> p_id (store (snd (plan s)) ! length (store s)) = ''plan-'' @ string_of_int (clock s (reads s))
      \<and> p_status (store (snd (plan s)) ! length (store s)) = Active
      \<and> list_all (\<lambda>task. st_status task = Pending) (p_subtasks (store (snd (plan s)) ! length (store s))))"
proof (intro conjI impI)
  assume a: "\<not> isPlanningInProgress s \<and> currentPlan s = Some r \<and> r < length (store s)
    \<and> list_all (\<lambda>task. st_status task = Completed) (p_subtasks (store s ! r))"
  then have idle: "\<not> isPlanningInProgress s" and cur: "currentPlan s = Some r"
    and valid: "r < length (store s)"
    and finished: "list_all (\<lambda>task. st_status task = Completed) (p_subtasks (store s ! r))"
    by simp_all
  note c = plan_completes [OF idle cur valid finished]
  have len: "length (store (snd (plan s))) = length (store s)" by (simp add: c)
  note g = plan_generates [OF c(3) c(1)]
  show "getCurrentPlan (snd (plan s)) = None" by (simp add: getCurrentPlan_def c)
  show "store (snd (plan s)) =
          (store s)[r := (store s ! r)\<lparr>p_status := PlanCompleted, p_updatedAt := clock s (reads s)\<rparr>]"
    by (rule c)
  show "getCurrentPlan (snd (plan (snd (plan s)))) = Some (length (store s))"
    using g(1) by (simp add: getCurrentPlan_def len)
  show "length (store s) \<noteq> r" using valid by simp
  show "store (snd (plan (snd (plan s)))) ! r = store (snd (plan s)) ! r"
    using g(3) valid by (simp add: len)
  show "p_status (store (snd (plan (snd (plan s)))) ! length (store s)) = Active"
    using g(5) by (simp add: len)
  show "list_all (\<lambda>task. st_status task = Pending)
           (p_subtasks (store (snd (plan (snd (plan s)))) ! length (store s)))"
    using g(6) by (simp add: len)
  show new_id: "p_id (store (snd (plan (snd (plan s)))) ! length (store s))
          = ''plan-'' @ string_of_int (clock s (Suc (reads s)))"
    using g(4) by (simp add: len c)
  show "\<forall>t0. p_id (store s ! r) = ''plan-'' @ string_of_int t0 \<and> t0 \<noteq> clock s (Suc (reads s)) \<longrightarrow>
            p_id (store (snd (plan (snd (plan s)))) ! length (store s)) \<noteq> p_id (store (snd (plan s)) ! r)"
  proof (intro allI impI)
    fix t0
    assume b: "p_id (store s ! r) = ''plan-'' @ string_of_int t0 \<and> t0 \<noteq> clock s (Suc (reads s))"
    have old_id: "p_id (store (snd (plan s)) ! r) = ''plan-'' @ string_of_int t0"
      using b valid by (simp add: c)
    have "string_of_int (clock s (Suc (reads s))) \<noteq> string_of_int t0"
      using b string_of_int_inj by blast
    then show "p_id (store (snd (plan (snd (plan s)))) ! length (store s)) \<noteq> p_id (store (snd (plan s)) ! r)"
      by (simp add: new_id old_id)
  qed
next
  assume a: "\<not> isPlanningInProgress s \<and> getCurrentPlan s = None"
  then have idle: "\<not> isPlanningInProgress s" and cur: "currentPlan s = None"
    by (simp_all add: getCurrentPlan_def)
  note g = plan_generates [OF idle cur]
  show "getCurrentPlan (snd (plan s)) = Some (length (store s))" by (simp add: getCurrentPlan_def g)
  show "\<forall>k<length (store s). store (snd (plan s)) ! k = store s ! k" by (rule g)
  show "p_id (store (snd (plan s)) ! length (store s)) = ''plan-'' @ string_of_int (clock s (reads s))"
    by (rule g)
  show "p_status (store (snd (plan s)) ! length (store s)) = Active" by (rule g)
  show "list_all (\<lambda>task. st_status task = Pending) (p_subtasks (store (snd (plan s)) ! length (store s)))"
    by (rule g)
qed

text \<open>
  With a clock that advances: the completed plan \<^verbatim>\<open>plan-1000\<close> is cleared and the next cycle
  installs \<^verbatim>\<open>plan-1009\<close>.
\<close>

theorem completed_plan_is_cleared_witness:
  "getCurrentPlan (snd (plan ticking)) = None
   \<and> p_status (store (snd (plan ticking)) ! 0) = PlanCompleted
   \<and> getCurrentPlan (snd (plan (snd (plan ticking)))) = Some 1
   \<and> p_id (store (snd (plan (snd (plan ticking)))) ! 0) = ''plan-1000''
   \<and> p_id (store (snd (plan (snd (plan ticking)))) ! 1) = ''plan-1009''
   \<and> p_id (store (snd (plan (snd (plan ticking)))) ! 1) \<noteq> p_id (store (snd (plan ticking)) ! 0)
   \<and> getCurrentPlan (snd (plan fresh)) = Some 0"
proof -
  have idle: "\<not> isPlanningInProgress ticking" by (simp add: ticking_def all_done_eval)
  have cur: "currentPlan ticking = Some 0" by (simp add: ticking_def all_done_eval)
  have valid: "0 < length (store ticking)" by (simp add: ticking_def all_done_eval)
  have finished: "list_all (\<lambda>task. st_status task = Completed) (p_subtasks (store ticking ! 0))"
    by (simp add: ticking_def all_done_eval)
  have id0: "p_id (store ticking ! 0) = ''plan-'' @ string_of_int 1000"
    by (simp add: ticking_def all_done_eval string_of_int_def string_of_nat.simps digit_char_def)
  have next_reading: "clock ticking (Suc (reads ticking)) = 1009"
    by (simp add: ticking_def all_done_eval ticking_clock_def)
  have later: "(1000::int) \<noteq> clock ticking (Suc (reads ticking))" by (simp add: next_reading)
  have len: "length (store ticking) = 1" by (simp add: ticking_def all_done_eval)
  have idle0: "\<not> isPlanningInProgress fresh" "getCurrentPlan fresh = None" "length (store fresh) = 0"
    by (simp_all add: fresh_def new_planner_def getCurrentPlan_def)
  note t = completed_plan_is_cleared [of ticking 0]
  note f = completed_plan_is_cleared [of fresh 0]
  have "p_id (store (snd (plan (snd (plan ticking)))) ! 1) \<noteq> p_id (store (snd (plan ticking)) ! 0)"
    using t idle cur valid finished id0 later len by (metis One_nat_def)
  moreover have "p_status (store (snd (plan ticking)) ! 0) = PlanCompleted"
    using t idle cur valid finished by (simp add: len)
  moreover have "p_id (store (snd (plan (snd (plan ticking)))) ! 0) = ''plan-1000''"
    using t idle cur valid finished by (simp add: len ticking_def all_done_eval)
  moreover have "p_id (store (snd (plan (snd (plan ticking)))) ! 1) = ''plan-'' @ string_of_int 1009"
    using t idle cur valid finished by (simp add: len next_reading)
  then have "p_id (store (snd (plan (snd (plan ticking)))) ! 1) = ''plan-1009''"
    by (simp add: string_of_int_def string_of_nat.simps digit_char_def)
  ultimately show ?thesis
    using t f idle cur valid finished idle0 by (simp add: len)
qed

section \<open>What re-planning does to the replaced plan\<close>

text \<open>
  The stateless \<^verbatim>\<open>replanIfNeeded\<close> replaces \<open>P0\<close>, which has a failed subtask, and leaves
  \<open>P0\<close> itself as it was, status \<^verbatim>\<open>in_progress\<close> included.
\<close>

theorem replanIfNeeded_keeps_status_counterexample:
  "fst (replanIfNeeded mock_state (Some 0) (world_of [P0])) = Inr 1
   \<and> heap (snd (replanIfNeeded mock_state (Some 0) (world_of [P0]))) ! 0 = P0
   \<and> sp_status (heap (snd (replanIfNeeded mock_state (Some 0) (world_of [P0]))) ! 0) = SvcInProgress"
proof -
  have v: "0 < length (heap (world_of [P0]))" by (simp add: world_of_def)
  have bad: "list_ex (\<lambda>task. ss_status task = Failed) (sp_subtasks (heap (world_of [P0]) ! 0))"
    by (simp add: world_of_def P0_def)
  note n = replan_needed [OF v bad, of mock_state]
  have "fst (replanIfNeeded mock_state (Some 0) (world_of [P0])) = Inr 1"
    using n(1) by (simp add: world_of_def)
  moreover have "heap (snd (replanIfNeeded mock_state (Some 0) (world_of [P0]))) ! 0 = P0"
    using n(3) by (simp add: world_of_def)
  ultimately show ?thesis by (simp add: P0_def)
qed

text \<open>
  Claim C4, as the code has it. When the stateful planner decides to re-plan, that is when
  \<^verbatim>\<open>handleDiscrepancies\<close> is given a discrepancy that starts with \<^verbatim>\<open>CRITICAL:\<close>, the current plan
  is marked \<^verbatim>\<open>abandoned\<close> and its \<^verbatim>\<open>updatedAt\<close> is set before the successor is generated and
  installed in the slot; without such a discrepancy nothing is abandoned or replaced.
  The stateless \<^verbatim>\<open>replanIfNeeded\<close>, which re-plans on a failed subtask, returns the successor
  and leaves the plan it was given exactly as it was.
\<close>

theorem replan_abandons_current_plan:
  "(currentPlan s = Some r \<and> r < length (store s) \<and> shouldReplan discrepancies \<longrightarrow>
      fst (handleDiscrepancies discrepancies s) = Inr ()
      \<and> store (snd (handleDiscrepancies discrepancies s)) ! r
          = (store s ! r)\<lparr>p_status := Abandoned, p_updatedAt := clock s (reads s)\<rparr>
      \<and> currentPlan (snd (handleDiscrepancies discrepancies s)) = Some (length (store s))
      \<and> p_status (store (snd (handleDiscrepancies discrepancies s)) ! length (store s)) = Active)
   \<and> (\<not> shouldReplan discrepancies \<longrightarrow>
      store (snd (handleDiscrepancies discrepancies s)) = store s
      \<and> currentPlan (snd (handleDiscrepancies discrepancies s)) = currentPlan s)
   \<and> (q < length (heap w)
       \<and> list_ex (\<lambda>task. ss_status task = Failed) (sp_subtasks (heap w ! q)) \<longrightarrow>
      fst (replanIfNeeded state (Some q) w) = Inr (length (heap w))
      \<and> heap (snd (replanIfNeeded state (Some q) w)) ! q = heap w ! q)"
proof (intro conjI impI)
  assume a: "currentPlan s = Some r \<and> r < length (store s) \<and> shouldReplan discrepancies"
  define s2 where "s2 =
     (log_to LInfo ''handle_discrepancies''
        ([(''planId'', p_id (store s ! r))]
         @ [(''discrepancyCount'', string_of_nat (length discrepancies))])
        ''Handling plan discrepancies'' s)
     \<lparr>reads := Suc (reads s),
      store := (store s)[r := (store s ! r)\<lparr>p_status := Abandoned, p_updatedAt := clock s (reads s)\<rparr>]\<rparr>"
  have h: "handleDiscrepancies discrepancies s = generatePlan s2"
    using a by (simp add: handleDiscrepancies_def handleDiscrepancies_with_def planner_defs s2_def)
  have st2: "store s2 = (store s)[r := (store s ! r)\<lparr>p_status := Abandoned, p_updatedAt := clock s (reads s)\<rparr>]"
    by (simp add: s2_def log_to_def)
  have len2: "length (store s2) = length (store s)" by (simp add: st2)
  show "fst (handleDiscrepancies discrepancies s) = Inr ()"
    by (simp add: h generatePlan_resolves)
  show "store (snd (handleDiscrepancies discrepancies s)) ! r
          = (store s ! r)\<lparr>p_status := Abandoned, p_updatedAt := clock s (reads s)\<rparr>"
    using a by (simp add: h generatePlan_old len2) (simp add: st2)
  show "currentPlan (snd (handleDiscrepancies discrepancies s)) = Some (length (store s))"
    by (simp add: h generatePlan_slot len2)
  show "p_status (store (snd (handleDiscrepancies discrepancies s)) ! length (store s)) = Active"
    using generatePlan_new(2) [of s2] by (simp add: h len2)
next
  assume "\<not> shouldReplan discrepancies"
  then show "store (snd (handleDiscrepancies discrepancies s)) = store s"
    and "currentPlan (snd (handleDiscrepancies discrepancies s)) = currentPlan s"
    by (simp_all add: handleDiscrepancies_def handleDiscrepancies_with_def planner_defs)
next
  assume b: "q < length (heap w)
       \<and> list_ex (\<lambda>task. ss_status task = Failed) (sp_subtasks (heap w ! q))"
  then have v: "q < length (heap w)"
    and f: "list_ex (\<lambda>task. ss_status task = Failed) (sp_subtasks (heap w ! q))" by simp_all
  note n = replan_needed [OF v f, of state]
  show "fst (replanIfNeeded state (Some q) w) = Inr (length (heap w))" by (rule n)
  show "heap (snd (replanIfNeeded state (Some q) w)) ! q = heap w ! q" using n(3) v by simp
qed


text \<open>
  A critical discrepancy on the plan of the first cycle, a minor one, and the stateless
  re-planning of \<open>P0\<close>.
\<close>

theorem replan_abandons_current_plan_witness:
  "p_status (store (snd (handleDiscrepancies [''CRITICAL: Major state deviation detected'']
                           (snd (plan fresh)))) ! 0) = Abandoned
   \<and> currentPlan (snd (handleDiscrepancies [''CRITICAL: Major state deviation detected'']
                         (snd (plan fresh)))) = Some 1
   \<and> store (snd (handleDiscrepancies [''MINOR: Small state deviation detected''] (snd (plan fresh))))
       = store (snd (plan fresh))
   \<and> heap (snd (replanIfNeeded mock_state (Some 0) (world_of [P0]))) ! 0 = P0"
proof -
  have crit: "shouldReplan [''CRITICAL: Major state deviation detected'']"
    by (simp add: shouldReplan_def startsWith_def)
  have minor: "\<not> shouldReplan [''MINOR: Small state deviation detected'']"
    by (simp add: shouldReplan_def startsWith_def)
  have v: "0 < length (heap (world_of [P0]))" by (simp add: world_of_def)
  have bad: "list_ex (\<lambda>task. ss_status task = Failed) (sp_subtasks (heap (world_of [P0]) ! 0))"
    by (simp add: world_of_def P0_def)
  have hp: "heap (world_of [P0]) ! 0 = P0" by (simp add: world_of_def)
  show ?thesis
    using replan_abandons_current_plan [of "snd (plan fresh)" 0
        "[''CRITICAL: Major state deviation detected'']" 0 "world_of [P0]" mock_state]
      replan_abandons_current_plan [of "snd (plan fresh)" 0
        "[''MINOR: Small state deviation detected'']" 0 "world_of [P0]" mock_state]
      crit minor v bad hp plan_fresh
    by simp
qed

section \<open>The single-timer loop: planning after a failure\<close>






end
